theory Spec2Isabelle
  imports Complex_Main "HOL-Library.Word" "HOL-Library.AList" "HOL-Library.Product_Lexorder"
begin

section \<open>Values: numpy float64, cells, Python errors\<close>

text \<open>
  The notebook \<^verbatim>\<open>maps_us_data.ipynb\<close> computes with pandas data frames whose numeric
  cells are numpy \<^verbatim>\<open>float64\<close> values. A \<^verbatim>\<open>float64\<close> is a finite number, one of the
  two infinities or not-a-number. The special values follow IEEE 754; the result of an
  operation on finite operands is the exact result handed to a rounding function
  \<open>rnd\<close>, which every arithmetic function takes as its first argument (it may round,
  and it may overflow to an infinity). Signed zeros are not distinguished: a zero
  divisor is \<open>+0\<close>. Counts and populations are held as \<^verbatim>\<open>float64\<close>, the type that
  has the gap marker not-a-number.
\<close>

datatype npfloat = Fin real | PInf | NInf | NaN

type_synonym rounding = "real \<Rightarrow> npfloat"

fun fmul :: "rounding \<Rightarrow> npfloat \<Rightarrow> npfloat \<Rightarrow> npfloat" where
  "fmul rnd NaN y = NaN"
| "fmul rnd x NaN = NaN"
| "fmul rnd (Fin a) (Fin b) = rnd (a * b)"
| "fmul rnd (Fin a) PInf = (if a = 0 then NaN else if 0 < a then PInf else NInf)"
| "fmul rnd (Fin a) NInf = (if a = 0 then NaN else if 0 < a then NInf else PInf)"
| "fmul rnd PInf (Fin b) = (if b = 0 then NaN else if 0 < b then PInf else NInf)"
| "fmul rnd NInf (Fin b) = (if b = 0 then NaN else if 0 < b then NInf else PInf)"
| "fmul rnd PInf PInf = PInf"
| "fmul rnd PInf NInf = NInf"
| "fmul rnd NInf PInf = NInf"
| "fmul rnd NInf NInf = PInf"

fun fdiv :: "rounding \<Rightarrow> npfloat \<Rightarrow> npfloat \<Rightarrow> npfloat" where
  "fdiv rnd NaN y = NaN"
| "fdiv rnd x NaN = NaN"
| "fdiv rnd (Fin a) (Fin b) =
     (if b = 0 then (if a = 0 then NaN else if 0 < a then PInf else NInf)
      else rnd (a / b))"
| "fdiv rnd (Fin a) PInf = Fin 0"
| "fdiv rnd (Fin a) NInf = Fin 0"
| "fdiv rnd PInf (Fin b) = (if 0 \<le> b then PInf else NInf)"
| "fdiv rnd NInf (Fin b) = (if 0 \<le> b then NInf else PInf)"
| "fdiv rnd PInf PInf = NaN"
| "fdiv rnd PInf NInf = NaN"
| "fdiv rnd NInf PInf = NaN"
| "fdiv rnd NInf NInf = NaN"

fun fsub :: "rounding \<Rightarrow> npfloat \<Rightarrow> npfloat \<Rightarrow> npfloat" where
  "fsub rnd NaN y = NaN"
| "fsub rnd x NaN = NaN"
| "fsub rnd (Fin a) (Fin b) = rnd (a - b)"
| "fsub rnd (Fin a) PInf = NInf"
| "fsub rnd (Fin a) NInf = PInf"
| "fsub rnd PInf (Fin b) = PInf"
| "fsub rnd NInf (Fin b) = NInf"
| "fsub rnd PInf PInf = NaN"
| "fsub rnd PInf NInf = PInf"
| "fsub rnd NInf PInf = NInf"
| "fsub rnd NInf NInf = NaN"

text \<open>
  A cell of a data frame: text (\<^verbatim>\<open>State\<close>, \<^verbatim>\<open>County\<close>), a \<^verbatim>\<open>float64\<close> number, a
  boolean (the outlier flags as read from the CSV file) or an \<^verbatim>\<open>int8\<close> (the outlier
  flags after the cast of the third notebook cell).
\<close>

datatype cell = Str string | Num npfloat | Flag bool | I8 "8 word"

datatype error =
  KeyError | IndexError | TypeError | ValueError | AttributeError | NameError | DuplicateKeyError

text \<open>
  Conversion of a numeric cell to \<^verbatim>\<open>float64\<close>, as numpy promotes a boolean or an
  \<^verbatim>\<open>int8\<close> operand that meets a float operand. Text has no number: \<^verbatim>\<open>TypeError\<close>.
\<close>

fun as_float :: "cell \<Rightarrow> error + npfloat" where
  "as_float (Num x) = Inr x"
| "as_float (I8 w) = Inr (Fin (real_of_int (sint w)))"
| "as_float (Flag b) = Inr (Fin (if b then 1 else 0))"
| "as_float (Str s) = Inl TypeError"

text \<open>\<^verbatim>\<open>100.0 * x\<close> and \<^verbatim>\<open>x / y\<close> with a float left operand: the result is float64.\<close>

definition np_mul :: "rounding \<Rightarrow> npfloat \<Rightarrow> cell \<Rightarrow> error + cell" where
  "np_mul rnd k x = (case as_float x of Inl e \<Rightarrow> Inl e | Inr a \<Rightarrow> Inr (Num (fmul rnd k a)))"

definition np_div :: "rounding \<Rightarrow> cell \<Rightarrow> cell \<Rightarrow> error + cell" where
  "np_div rnd x y =
     (case as_float x of Inl e \<Rightarrow> Inl e
      | Inr a \<Rightarrow> (case as_float y of Inl e \<Rightarrow> Inl e | Inr b \<Rightarrow> Inr (Num (fdiv rnd a b))))"

text \<open>
  \<^verbatim>\<open>x - y\<close>: float64 subtraction when an operand is a float, wrapping \<^verbatim>\<open>int8\<close>
  subtraction on two \<^verbatim>\<open>int8\<close> (a boolean operand beside an \<^verbatim>\<open>int8\<close> is promoted to
  \<^verbatim>\<open>int8\<close>); numpy refuses to subtract two booleans, and text.
\<close>

fun np_sub :: "rounding \<Rightarrow> cell \<Rightarrow> cell \<Rightarrow> error + cell" where
  "np_sub rnd (Str s) y = Inl TypeError"
| "np_sub rnd x (Str s) = Inl TypeError"
| "np_sub rnd (Flag a) (Flag b) = Inl TypeError"
| "np_sub rnd (I8 a) (I8 b) = Inr (I8 (a - b))"
| "np_sub rnd (I8 a) (Flag b) = Inr (I8 (a - (if b then 1 else 0)))"
| "np_sub rnd (Flag a) (I8 b) = Inr (I8 ((if a then 1 else 0) - b))"
| "np_sub rnd (Num a) y = (case as_float y of Inl e \<Rightarrow> Inl e | Inr b \<Rightarrow> Inr (Num (fsub rnd a b)))"
| "np_sub rnd x (Num b) = (case as_float x of Inl e \<Rightarrow> Inl e | Inr a \<Rightarrow> Inr (Num (fsub rnd a b)))"

text \<open>Element-wise application that stops at the first error, as the raising ufunc does.\<close>

fun map_err :: "('a \<Rightarrow> error + 'b) \<Rightarrow> 'a list \<Rightarrow> error + 'b list" where
  "map_err f [] = Inr []"
| "map_err f (x # xs) =
     (case f x of Inl e \<Rightarrow> Inl e
      | Inr y \<Rightarrow> (case map_err f xs of Inl e \<Rightarrow> Inl e | Inr ys \<Rightarrow> Inr (y # ys)))"

section \<open>Data frames\<close>

text \<open>
  A column is either a list of scalar cells or a \<^verbatim>\<open>TensorArray\<close>: a two-dimensional
  numpy array (\<^verbatim>\<open>_tensor\<close>) held with its second dimension, one row per frame row (the
  array is rectangular: every row has that length, which \<open>is_tensor_col\<close> below states
  where a property needs it). A frame is its index and its columns in order; \<^verbatim>\<open>cases_vertical\<close> is indexed by the pair
  \<^verbatim>\<open>(FIPS, Date)\<close>, \<^verbatim>\<open>cases\<close> and the two snapshot frames by \<^verbatim>\<open>FIPS\<close>.
\<close>

datatype column = Scalars "cell list" | Tensor nat "cell list list"

record 'i frame =
  index :: "'i list"
  columns :: "(string \<times> column) list"

fun col_length :: "column \<Rightarrow> nat" where
  "col_length (Scalars vs) = length vs"
| "col_length (Tensor n rows) = length rows"

text \<open>\<^verbatim>\<open>df[col]\<close>: the column of that name, \<^verbatim>\<open>KeyError\<close> when there is none.\<close>

definition getitem :: "'i frame \<Rightarrow> string \<Rightarrow> error + column" where
  "getitem df col = (case map_of (columns df) col of None \<Rightarrow> Inl KeyError | Some c \<Rightarrow> Inr c)"

text \<open>
  \<^verbatim>\<open>df[[c1, ..., ck]]\<close>: a new frame of these columns in this order, on the same index.
\<close>

definition getitem_list :: "'i frame \<Rightarrow> string list \<Rightarrow> error + 'i frame" where
  "getitem_list df cols =
     (case map_err (\<lambda>c. case getitem df c of Inl e \<Rightarrow> Inl e | Inr v \<Rightarrow> Inr (c, v)) cols of
        Inl e \<Rightarrow> Inl e
      | Inr cs \<Rightarrow> Inr \<lparr>index = index df, columns = cs\<rparr>)"

text \<open>
  \<^verbatim>\<open>df[col] = values\<close>: replaces the column of that name where it stands, or appends a
  new one; pandas raises \<^verbatim>\<open>ValueError\<close> when the number of values is not the length of
  the index.
\<close>

definition setitem :: "'i frame \<Rightarrow> string \<Rightarrow> column \<Rightarrow> error + 'i frame" where
  "setitem df col v =
     (if col_length v = length (index df)
      then Inr (df\<lparr>columns := AList.update col v (columns df)\<rparr>)
      else Inl ValueError)"

text \<open>
  \<^verbatim>\<open>df[col].values._tensor\<close>: only a \<^verbatim>\<open>TensorArray\<close> has the attribute \<^verbatim>\<open>_tensor\<close>.
\<close>

definition get_tensor :: "'i frame \<Rightarrow> string \<Rightarrow> error + (nat \<times> cell list list)" where
  "get_tensor df col =
     (case getitem df col of
        Inl e \<Rightarrow> Inl e
      | Inr (Scalars vs) \<Rightarrow> Inl AttributeError
      | Inr (Tensor n rows) \<Rightarrow> Inr (n, rows))"

text \<open>
  \<^verbatim>\<open>t[:, k]\<close> on a two-dimensional array with \<open>n\<close> columns: a negative \<open>k\<close> counts from
  the end, and a position outside \<open>0 .. n - 1\<close> raises \<^verbatim>\<open>IndexError\<close>, whatever the
  number of rows.
\<close>

definition tensor_col :: "nat \<times> cell list list \<Rightarrow> int \<Rightarrow> error + cell list" where
  "tensor_col t k =
     (let n = int (fst t); j = (if k < 0 then n + k else k)
      in if 0 \<le> j \<and> j < n then Inr (map (\<lambda>row. row ! nat j) (snd t)) else Inl IndexError)"

text \<open>Element-wise \<^verbatim>\<open>a - b\<close> of two one-dimensional arrays of the same length.\<close>

definition sub_arrays :: "rounding \<Rightarrow> cell list \<Rightarrow> cell list \<Rightarrow> error + cell list" where
  "sub_arrays rnd xs ys =
     (if length xs = length ys then map_err (\<lambda>(x, y). np_sub rnd x y) (zip xs ys)
      else Inl ValueError)"

section \<open>The derived metrics of the notebook\<close>

text \<open>
  Cell 6:
  \<^verbatim>\<open>latest_cases = cases[["State", "County", "Population"]].copy()\<close>
  \<^verbatim>\<open>for col in ["Confirmed", "Confirmed_per_100", "Deaths", "Deaths_per_100"]:\<close>
  \<^verbatim>\<open>    latest_cases[col] = cases[col].values._tensor[:,-1]\<close>
\<close>

definition snapshot_base :: "string list" where
  "snapshot_base = [''State'', ''County'', ''Population'']"

definition snapshot_cols :: "string list" where
  "snapshot_cols = [''Confirmed'', ''Confirmed_per_100'', ''Deaths'', ''Deaths_per_100'']"

definition latest_step :: "int frame \<Rightarrow> int frame \<Rightarrow> string \<Rightarrow> error + int frame" where
  "latest_step cases acc col =
     (case get_tensor cases col of
        Inl e \<Rightarrow> Inl e
      | Inr t \<Rightarrow> (case tensor_col t (- 1) of
                   Inl e \<Rightarrow> Inl e
                 | Inr v \<Rightarrow> setitem acc col (Scalars v)))"

fun for_cols :: "('s \<Rightarrow> string \<Rightarrow> error + 's) \<Rightarrow> 's \<Rightarrow> string list \<Rightarrow> error + 's" where
  "for_cols body acc [] = Inr acc"
| "for_cols body acc (col # cols) =
     (case body acc col of Inl e \<Rightarrow> Inl e | Inr acc' \<Rightarrow> for_cols body acc' cols)"

definition latest_cases :: "int frame \<Rightarrow> error + int frame" where
  "latest_cases cases =
     (case getitem_list cases snapshot_base of
        Inl e \<Rightarrow> Inl e
      | Inr base \<Rightarrow> for_cols (latest_step cases) base snapshot_cols)"

text \<open>
  Cell 7:
  \<^verbatim>\<open>cases_this_week = cases[["State", "County", "Population"]].copy()\<close>
  \<^verbatim>\<open>for col in ["Confirmed", "Confirmed_per_100", "Deaths", "Deaths_per_100"]:\<close>
  \<^verbatim>\<open>    cases_this_week[col] = cases[col].values._tensor[:,-1] - cases[col].values._tensor[:,-8]\<close>
\<close>

definition this_week_step ::
  "rounding \<Rightarrow> int frame \<Rightarrow> int frame \<Rightarrow> string \<Rightarrow> error + int frame" where
  "this_week_step rnd cases acc col =
     (case get_tensor cases col of
        Inl e \<Rightarrow> Inl e
      | Inr t \<Rightarrow> (case tensor_col t (- 1) of
                   Inl e \<Rightarrow> Inl e
                 | Inr a \<Rightarrow> (case tensor_col t (- 8) of
                              Inl e \<Rightarrow> Inl e
                            | Inr b \<Rightarrow> (case sub_arrays rnd a b of
                                         Inl e \<Rightarrow> Inl e
                                       | Inr v \<Rightarrow> setitem acc col (Scalars v)))))"

definition cases_this_week :: "rounding \<Rightarrow> int frame \<Rightarrow> error + int frame" where
  "cases_this_week rnd cases =
     (case getitem_list cases snapshot_base of
        Inl e \<Rightarrow> Inl e
      | Inr base \<Rightarrow> for_cols (this_week_step rnd cases) base snapshot_cols)"

text \<open>
  Cell 5:
  \<^verbatim>\<open>cases["Confirmed_per_100"] = 100.0 * cases["Confirmed"].values / cases["Population"].values.reshape(-1,1)\<close>
  \<^verbatim>\<open>cases["Deaths_per_100"] = 100.0 * cases["Deaths"].values / cases["Population"].values.reshape(-1,1)\<close>
  \<open>scale\<close> is the product of the float \<open>100.0\<close> and an array, \<open>broadcast_div\<close> the
  quotient of an array and the population reshaped to one column: numpy broadcasts the
  population of a row along that row of a two-dimensional array. The columns of one frame
  have the same number of rows; two arrays whose rows do not match are reported as
  \<^verbatim>\<open>ValueError\<close>. A one-dimensional numerator is outside the frames the notebook builds
  (the quotient is then an outer product, which is no column), as is a \<^verbatim>\<open>TensorArray\<close>
  of populations.
\<close>

fun scale :: "rounding \<Rightarrow> npfloat \<Rightarrow> column \<Rightarrow> error + column" where
  "scale rnd k (Scalars vs) =
     (case map_err (np_mul rnd k) vs of Inl e \<Rightarrow> Inl e | Inr ws \<Rightarrow> Inr (Scalars ws))"
| "scale rnd k (Tensor n rows) =
     (case map_err (map_err (np_mul rnd k)) rows of
        Inl e \<Rightarrow> Inl e | Inr out \<Rightarrow> Inr (Tensor n out))"

fun broadcast_div :: "rounding \<Rightarrow> column \<Rightarrow> cell list \<Rightarrow> error + column" where
  "broadcast_div rnd (Tensor n rows) pops =
     (if length rows = length pops
      then (case map_err (\<lambda>(row, p). map_err (\<lambda>x. np_div rnd x p) row) (zip rows pops) of
              Inl e \<Rightarrow> Inl e | Inr out \<Rightarrow> Inr (Tensor n out))
      else Inl ValueError)"
| "broadcast_div rnd (Scalars vs) pops =
     (case map_err (\<lambda>p. map_err (\<lambda>x. np_div rnd x p) vs) pops of
        Inl e \<Rightarrow> Inl e | Inr out \<Rightarrow> Inl ValueError)"

definition per_capita :: "rounding \<Rightarrow> int frame \<Rightarrow> string \<Rightarrow> error + column" where
  "per_capita rnd cases col =
     (case getitem cases col of
        Inl e \<Rightarrow> Inl e
      | Inr c \<Rightarrow>
          (case scale rnd (Fin 100) c of
             Inl e \<Rightarrow> Inl e
           | Inr num \<Rightarrow>
               (case getitem cases ''Population'' of
                  Inl e \<Rightarrow> Inl e
                | Inr (Tensor n rows) \<Rightarrow> Inl AttributeError
                | Inr (Scalars pops) \<Rightarrow> broadcast_div rnd num pops)))"

definition add_per_capita :: "rounding \<Rightarrow> int frame \<Rightarrow> error + int frame" where
  "add_per_capita rnd cases =
     (case per_capita rnd cases ''Confirmed'' of
        Inl e \<Rightarrow> Inl e
      | Inr c \<Rightarrow>
          (case setitem cases ''Confirmed_per_100'' c of
             Inl e \<Rightarrow> Inl e
           | Inr cases1 \<Rightarrow>
               (case per_capita rnd cases1 ''Deaths'' of
                  Inl e \<Rightarrow> Inl e
                | Inr d \<Rightarrow> setitem cases1 ''Deaths_per_100'' d)))"

section \<open>Well-formed wide tables\<close>

text \<open>
  The shape of \<^verbatim>\<open>cases\<close> that the derived metrics read: a scalar column has one cell
  per row of the index; a tensor column over a date axis of length \<open>n\<close> has one row per
  row of the index, each of length \<open>n\<close>. \<open>float_tensor\<close> and \<open>float_col\<close> build
  float64 columns from their numbers.
\<close>

definition is_scalar_col :: "'i frame \<Rightarrow> string \<Rightarrow> bool" where
  "is_scalar_col df c =
     (case map_of (columns df) c of
        Some (Scalars vs) \<Rightarrow> length vs = length (index df)
      | _ \<Rightarrow> False)"

definition is_tensor_col :: "'i frame \<Rightarrow> nat \<Rightarrow> string \<Rightarrow> bool" where
  "is_tensor_col df n c =
     (case map_of (columns df) c of
        Some (Tensor m rows) \<Rightarrow>
          m = n \<and> length rows = length (index df) \<and> list_all (\<lambda>row. length row = n) rows
      | _ \<Rightarrow> False)"

definition wide_table :: "int frame \<Rightarrow> nat \<Rightarrow> bool" where
  "wide_table cases n \<longleftrightarrow>
     list_all (is_scalar_col cases) snapshot_base \<and> list_all (is_tensor_col cases n) snapshot_cols"

definition float_tensor :: "nat \<Rightarrow> npfloat list list \<Rightarrow> column" where
  "float_tensor n raw = Tensor n (map (map Num) raw)"

definition float_col :: "npfloat list \<Rightarrow> column" where
  "float_col xs = Scalars (map Num xs)"

text \<open>
  The sequences the derived metrics compute with are float64: every cell of the four
  tensor columns is a number (a gap is not-a-number).
\<close>

fun is_num :: "cell \<Rightarrow> bool" where
  "is_num (Num x) = True"
| "is_num c = False"

definition is_float_tensor :: "'i frame \<Rightarrow> string \<Rightarrow> bool" where
  "is_float_tensor df c =
     (case map_of (columns df) c of
        Some (Tensor m rows) \<Rightarrow> list_all (list_all is_num) rows
      | _ \<Rightarrow> False)"

definition float_tensors :: "int frame \<Rightarrow> bool" where
  "float_tensors cases = list_all (is_float_tensor cases) snapshot_cols"

text \<open>A small wide table of two counties, for concrete evaluations.\<close>

definition two_counties :: "nat \<Rightarrow> real list \<Rightarrow> real list \<Rightarrow> int frame" where
  "two_counties n xs ys =
     \<lparr>index = [1001, 1003],
      columns =
        [(''State'', Scalars [Str ''Alabama'', Str ''Alabama'']),
         (''County'', Scalars [Str ''Autauga'', Str ''Baldwin'']),
         (''Population'', Scalars [Num (Fin 1000), Num (Fin 2000)]),
         (''Confirmed'', float_tensor n [map Fin xs, map Fin ys]),
         (''Deaths'', float_tensor n [map Fin ys, map Fin xs]),
         (''Confirmed_per_100'', float_tensor n [map Fin xs, map Fin xs]),
         (''Deaths_per_100'', float_tensor n [map Fin ys, map Fin ys])]\<rparr>"

text \<open>The scalar form of the expression of cell 5: \<^verbatim>\<open>100.0 * raw / population\<close>.\<close>

definition per_100_of :: "rounding \<Rightarrow> npfloat \<Rightarrow> npfloat \<Rightarrow> npfloat" where
  "per_100_of rnd raw population = fdiv rnd (fmul rnd (Fin 100) raw) population"

text \<open>A county of population zero, with five confirmed cases on the second date.\<close>

definition zero_population :: "int frame" where
  "zero_population =
     \<lparr>index = [1001],
      columns =
        [(''State'', Scalars [Str ''Alabama'']),
         (''County'', Scalars [Str ''Unassigned'']),
         (''Population'', float_col [Fin 0]),
         (''Confirmed'', float_tensor 2 [[Fin 0, Fin 5]]),
         (''Deaths'', float_tensor 2 [[Fin 0, Fin 0]])]\<rparr>"

section \<open>Reading the long table\<close>

text \<open>
  Cell 2 reads the cleaned CSV file into a frame and moves the columns \<^verbatim>\<open>FIPS\<close> and
  \<^verbatim>\<open>Date\<close> into a two-level index:
  \<^verbatim>\<open>pd.read_csv(csv_file, dtype=cases_meta, parse_dates=["Date"])\<close>
  \<^verbatim>\<open>  .set_index(["FIPS", "Date"], verify_integrity=True)\<close>
  The parsed file is its two key columns and its other columns. With
  \<^verbatim>\<open>verify_integrity=True\<close> pandas checks the new index for duplicates and raises
  \<^verbatim>\<open>ValueError\<close> when it has one.
\<close>

record 'd csv_table =
  FIPS :: "int list"
  Date :: "'d list"
  data_columns :: "(string \<times> column) list"

definition set_index :: "'d csv_table \<Rightarrow> error + (int \<times> 'd) frame" where
  "set_index csv =
     (let keys = zip (FIPS csv) (Date csv)
      in if distinct keys then Inr \<lparr>index = keys, columns = data_columns csv\<rparr> else Inl ValueError)"

text \<open>
  Cell 3 casts the three boolean outlier columns to \<^verbatim>\<open>int8\<close>, in place:
  \<^verbatim>\<open>for col in ["Confirmed_Outlier", "Deaths_Outlier", "Recovered_Outlier"]:\<close>
  \<^verbatim>\<open>    cases_vertical[col] = cases_vertical[col].astype(np.int8)\<close>
  A boolean becomes 0 or 1. A finite float is truncated towards zero (and wraps beyond
  the range of \<^verbatim>\<open>int8\<close>), a float that is not finite is refused by pandas; text is not
  parsed here, and a \<^verbatim>\<open>TensorArray\<close> is no column of the long table.
\<close>

fun astype_int8 :: "cell \<Rightarrow> error + cell" where
  "astype_int8 (Flag b) = Inr (I8 (if b then 1 else 0))"
| "astype_int8 (I8 w) = Inr (I8 w)"
| "astype_int8 (Num (Fin x)) = Inr (I8 (word_of_int (if 0 \<le> x then \<lfloor>x\<rfloor> else \<lceil>x\<rceil>)))"
| "astype_int8 (Num x) = Inl ValueError"
| "astype_int8 (Str s) = Inl ValueError"

fun astype_int8_col :: "column \<Rightarrow> error + column" where
  "astype_int8_col (Scalars vs) =
     (case map_err astype_int8 vs of Inl e \<Rightarrow> Inl e | Inr ws \<Rightarrow> Inr (Scalars ws))"
| "astype_int8_col (Tensor n rows) = Inl TypeError"

definition outlier_cols :: "string list" where
  "outlier_cols = [''Confirmed_Outlier'', ''Deaths_Outlier'', ''Recovered_Outlier'']"

definition cast_step :: "'i frame \<Rightarrow> string \<Rightarrow> error + 'i frame" where
  "cast_step df col =
     (case getitem df col of
        Inl e \<Rightarrow> Inl e
      | Inr c \<Rightarrow> (case astype_int8_col c of Inl e \<Rightarrow> Inl e | Inr c' \<Rightarrow> setitem df col c'))"

definition cast_outliers :: "'i frame \<Rightarrow> error + 'i frame" where
  "cast_outliers df = for_cols cast_step df outlier_cols"

section \<open>The time-series collapser\<close>

text \<open>
  Cell 4 calls \<^verbatim>\<open>util.collapse_time_series\<close>. Its source file \<^verbatim>\<open>util.py\<close> is not part of
  the sources at hand, so the definitions of this section follow section 4.1 of the
  specification instead of code.
\<close>

text \<open>
  Modelled from the spec: the gap marker of \<^verbatim>\<open>util.collapse_time_series\<close> (missing:
  \<^verbatim>\<open>util.py\<close>), "a designated gap marker (not-a-number for numeric fields)". Every
  requested field of the notebook is numeric.
\<close>

definition gap :: cell where
  "gap = Num NaN"

text \<open>
  Modelled from the spec: the cell of \<^verbatim>\<open>util.collapse_time_series\<close> (missing: \<^verbatim>\<open>util.py\<close>)
  for one key, "the value of that field for (Location, DateAxis[i]) if a row exists, else
  a designated gap marker".
\<close>

definition lookup_or_gap :: "('k \<times> cell) list \<Rightarrow> 'k \<Rightarrow> cell" where
  "lookup_or_gap kvs k = (case map_of kvs k of Some v \<Rightarrow> v | None \<Rightarrow> gap)"

text \<open>
  Modelled from the spec: what \<^verbatim>\<open>util.collapse_time_series\<close> (missing: \<^verbatim>\<open>util.py\<close>) makes
  of one scalar column. A requested measurement field becomes, for each location, "a
  sequence of length |DateAxis|" over the dates; any other field is "carried through
  unchanged", with its first observed value per location (the deterministic rule chosen
  here for a field that varies across dates).
\<close>

definition collapse_values ::
  "(int \<times> 'd) list \<Rightarrow> int list \<Rightarrow> 'd list \<Rightarrow> bool \<Rightarrow> cell list \<Rightarrow> column" where
  "collapse_values keys locations dates requested vs =
     (if requested
      then Tensor (length dates)
             (map (\<lambda>l. map (\<lambda>d. lookup_or_gap (zip keys vs) (l, d)) dates) locations)
      else Scalars (map (lookup_or_gap (zip (map fst keys) vs)) locations))"

text \<open>
  Modelled from the spec: \<^verbatim>\<open>util.collapse_time_series\<close> (missing: \<^verbatim>\<open>util.py\<close>) on one
  column. The fields of a long table are scalar; a column that is not is reported as
  \<^verbatim>\<open>TypeError\<close> (the specification gives no rule for it).
\<close>

definition collapse_column ::
  "(int \<times> 'd) list \<Rightarrow> int list \<Rightarrow> 'd list \<Rightarrow> bool \<Rightarrow> column \<Rightarrow> error + column" where
  "collapse_column keys locations dates requested c =
     (case c of
        Tensor n rows \<Rightarrow> Inl TypeError
      | Scalars vs \<Rightarrow> Inr (collapse_values keys locations dates requested vs))"

text \<open>
  Modelled from the spec: \<^verbatim>\<open>util.collapse_time_series\<close> (missing: \<^verbatim>\<open>util.py\<close>). The date
  axis is "the sorted set of distinct Date values appearing anywhere in LongTable"; there
  is one output row per distinct location (here in ascending order, the specification
  asks for no order); a long table that "is not uniquely keyed by (Location, Date)" is
  refused with \<^verbatim>\<open>DuplicateKeyError\<close>. A requested field that is no column of the table
  is reported as \<^verbatim>\<open>KeyError\<close> (the specification gives no rule for it).
\<close>

definition collapse_time_series ::
  "(int \<times> 'd::linorder) frame \<Rightarrow> string list \<Rightarrow> error + (int frame \<times> 'd list)" where
  "collapse_time_series df ts_cols =
     (if \<not> distinct (index df) then Inl DuplicateKeyError
      else if \<not> list_all (\<lambda>c. c \<in> set (map fst (columns df))) ts_cols then Inl KeyError
      else
        (let dates = sort (remdups (map snd (index df)));
             locations = sort (remdups (map fst (index df)))
         in case map_err
                   (\<lambda>(name, c).
                      case collapse_column (index df) locations dates (name \<in> set ts_cols) c of
                        Inl e \<Rightarrow> Inl e
                      | Inr c' \<Rightarrow> Inr (name, c'))
                   (columns df) of
              Inl e \<Rightarrow> Inl e
            | Inr cs \<Rightarrow> Inr (\<lparr>index = locations, columns = cs\<rparr>, dates)))"

text \<open>
  The round-trip law of section 8 of the specification speaks of re-expanding a collapsed
  table: "one row per (Location, Date) present in the original, dropping gap-filled
  synthetic rows". Neither the notebook nor its call of \<^verbatim>\<open>util.py\<close> has such a function;
  the next four definitions give it.
\<close>

text \<open>
  Modelled from the spec: the position of a location in the index of the wide table, or
  of a date in the date axis (missing: a re-expansion function).
\<close>

fun position :: "'a \<Rightarrow> 'a list \<Rightarrow> nat option" where
  "position x [] = None"
| "position x (y # ys) =
     (if x = y then Some 0 else (case position x ys of None \<Rightarrow> None | Some i \<Rightarrow> Some (Suc i)))"

text \<open>
  Modelled from the spec: the cell of the re-expansion for one original key (missing: a
  re-expansion function), read at the position of the key's date in the sequence of the
  key's location.
\<close>

definition expand_cell ::
  "int list \<Rightarrow> 'd list \<Rightarrow> cell list list \<Rightarrow> int \<times> 'd \<Rightarrow> error + cell" where
  "expand_cell locations dates rows key =
     (case position (fst key) locations of
        None \<Rightarrow> Inl KeyError
      | Some r \<Rightarrow>
          (case position (snd key) dates of
             None \<Rightarrow> Inl KeyError
           | Some i \<Rightarrow> Inr (rows ! r ! i)))"

text \<open>
  Modelled from the spec: the re-expansion of one requested field (missing: a
  re-expansion function), one cell per original key.
\<close>

definition expand_column ::
  "int frame \<Rightarrow> 'd list \<Rightarrow> (int \<times> 'd) list \<Rightarrow> string \<Rightarrow> error + (string \<times> column)" where
  "expand_column wide dates keys col =
     (case get_tensor wide col of
        Inl e \<Rightarrow> Inl e
      | Inr t \<Rightarrow>
          (case map_err (expand_cell (index wide) dates (snd t)) keys of
             Inl e \<Rightarrow> Inl e
           | Inr vs \<Rightarrow> Inr (col, Scalars vs)))"

text \<open>
  Modelled from the spec: the re-expansion of a collapsed table over the keys of the
  original (missing: a re-expansion function). Positions of the sequences that no
  original key names, the gap-filled ones, are not read.
\<close>

definition expand_time_series ::
  "int frame \<Rightarrow> 'd list \<Rightarrow> (int \<times> 'd) list \<Rightarrow> string list \<Rightarrow> error + (int \<times> 'd) frame" where
  "expand_time_series wide dates keys ts_cols =
     (case map_err (expand_column wide dates keys) ts_cols of
        Inl e \<Rightarrow> Inl e
      | Inr cs \<Rightarrow> Inr \<lparr>index = keys, columns = cs\<rparr>)"

text \<open>
  The long table of section 3 of the specification, as the collapser expects it: no key
  twice, every column scalar with one cell per key, every requested field a column.
\<close>

fun scalar_of_length :: "nat \<Rightarrow> column \<Rightarrow> bool" where
  "scalar_of_length m (Scalars vs) \<longleftrightarrow> length vs = m"
| "scalar_of_length m (Tensor n rows) \<longleftrightarrow> False"

definition long_table :: "(int \<times> 'd) frame \<Rightarrow> string list \<Rightarrow> bool" where
  "long_table df ts_cols \<longleftrightarrow>
     distinct (index df) \<and>
     list_all (\<lambda>p. scalar_of_length (length (index df)) (snd p)) (columns df) \<and>
     list_all (\<lambda>c. c \<in> set (map fst (columns df))) ts_cols"

text \<open>
  A long table of two counties over three dates in which neither county has a row on
  every date.
\<close>

definition gappy_long :: "(int \<times> (nat \<times> nat \<times> nat)) frame" where
  "gappy_long =
     \<lparr>index = [(1003, (2021, 1, 2)), (1001, (2021, 1, 1)), (1003, (2021, 1, 3))],
      columns =
        [(''State'', Scalars [Str ''Alabama'', Str ''Alabama'', Str ''Alabama'']),
         (''Confirmed'', Scalars [Num (Fin 1), Num (Fin 2), Num (Fin 3)]),
         (''Confirmed_Outlier'', Scalars [I8 0, I8 1, I8 0])]\<rparr>"

section \<open>The notebook as a sequence of cells on a store\<close>

text \<open>
  The notebook keeps its frames as objects that variables refer to. The store maps
  addresses to frames; a variable holds an address once it is bound. \<^verbatim>\<open>DataFrame.copy()\<close>
  and the functions that build a frame allocate a new object; \<^verbatim>\<open>df[col] = values\<close>
  writes to the object that \<^verbatim>\<open>df\<close> refers to.
\<close>

datatype 'd obj = Long "(int \<times> 'd) frame" | Wide "int frame"

record 'd state =
  heap :: "nat \<Rightarrow> 'd obj option"
  next_ref :: nat
  cases_vertical_ref :: "nat option"
  cases_ref :: "nat option"
  dates_var :: "'d list option"
  latest_cases_ref :: "nat option"
  cases_this_week_ref :: "nat option"

definition empty_state :: "'d state" where
  "empty_state =
     \<lparr>heap = (\<lambda>a. None), next_ref = 0, cases_vertical_ref = None, cases_ref = None,
      dates_var = None, latest_cases_ref = None, cases_this_week_ref = None\<rparr>"

definition alloc :: "'d obj \<Rightarrow> 'd state \<Rightarrow> nat \<times> 'd state" where
  "alloc ob s = (next_ref s, s\<lparr>heap := (heap s)(next_ref s \<mapsto> ob), next_ref := Suc (next_ref s)\<rparr>)"

text \<open>Reading a variable: \<^verbatim>\<open>NameError\<close> when it is not bound.\<close>

definition get_long :: "'d state \<Rightarrow> nat option \<Rightarrow> error + (nat \<times> (int \<times> 'd) frame)" where
  "get_long s var =
     (case var of
        None \<Rightarrow> Inl NameError
      | Some a \<Rightarrow> (case heap s a of Some (Long df) \<Rightarrow> Inr (a, df) | _ \<Rightarrow> Inl TypeError))"

definition get_wide :: "'d state \<Rightarrow> nat option \<Rightarrow> error + (nat \<times> int frame)" where
  "get_wide s var =
     (case var of
        None \<Rightarrow> Inl NameError
      | Some a \<Rightarrow> (case heap s a of Some (Wide df) \<Rightarrow> Inr (a, df) | _ \<Rightarrow> Inl TypeError))"

text \<open>Cell 2: \<^verbatim>\<open>cases_vertical = pd.read_csv(...).set_index(...)\<close>.\<close>

definition cell_read :: "'d csv_table \<Rightarrow> 'd state \<Rightarrow> error + 'd state" where
  "cell_read csv s =
     (case set_index csv of
        Inl e \<Rightarrow> Inl e
      | Inr cv \<Rightarrow> (case alloc (Long cv) s of (a, s') \<Rightarrow> Inr (s'\<lparr>cases_vertical_ref := Some a\<rparr>)))"

text \<open>Cell 3: the cast of the outlier columns writes to the object of \<^verbatim>\<open>cases_vertical\<close>.\<close>

definition cell_cast :: "'d state \<Rightarrow> error + 'd state" where
  "cell_cast s =
     (case get_long s (cases_vertical_ref s) of
        Inl e \<Rightarrow> Inl e
      | Inr (a, cv) \<Rightarrow>
          (case cast_outliers cv of
             Inl e \<Rightarrow> Inl e
           | Inr cv' \<Rightarrow> Inr (s\<lparr>heap := (heap s)(a \<mapsto> Long cv')\<rparr>)))"

text \<open>
  Cell 4:
  \<^verbatim>\<open>cases, dates = util.collapse_time_series(cases_vertical, [\<close>
  \<^verbatim>\<open>    "Confirmed", "Deaths", "Recovered",\<close>
  \<^verbatim>\<open>    "Confirmed_Outlier", "Deaths_Outlier", "Recovered_Outlier"])\<close>
\<close>

definition measurement_cols :: "string list" where
  "measurement_cols = [''Confirmed'', ''Deaths'', ''Recovered'',
              ''Confirmed_Outlier'', ''Deaths_Outlier'', ''Recovered_Outlier'']"

text \<open>
  The collapser itself is a function of \<^verbatim>\<open>util.py\<close>, which is not among the sources at
  hand: the cell and the run take it as a parameter.
\<close>

type_synonym 'd collapser = "(int \<times> 'd) frame \<Rightarrow> string list \<Rightarrow> error + (int frame \<times> 'd list)"

definition cell_collapse :: "'d collapser \<Rightarrow> 'd state \<Rightarrow> error + 'd state" where
  "cell_collapse collapse s =
     (case get_long s (cases_vertical_ref s) of
        Inl e \<Rightarrow> Inl e
      | Inr (a, cv) \<Rightarrow>
          (case collapse cv measurement_cols of
             Inl e \<Rightarrow> Inl e
           | Inr (wide, ds) \<Rightarrow>
               (case alloc (Wide wide) s of
                  (b, s') \<Rightarrow> Inr (s'\<lparr>cases_ref := Some b, dates_var := Some ds\<rparr>))))"

text \<open>Cell 5: the two per-capita columns are written to the object of \<^verbatim>\<open>cases\<close>.\<close>

definition cell_per_capita :: "rounding \<Rightarrow> 'd state \<Rightarrow> error + 'd state" where
  "cell_per_capita rnd s =
     (case get_wide s (cases_ref s) of
        Inl e \<Rightarrow> Inl e
      | Inr (b, wide) \<Rightarrow>
          (case add_per_capita rnd wide of
             Inl e \<Rightarrow> Inl e
           | Inr wide' \<Rightarrow> Inr (s\<lparr>heap := (heap s)(b \<mapsto> Wide wide')\<rparr>)))"

text \<open>
  Cells 6 and 7: the snapshot frame starts as a copy of three columns of \<^verbatim>\<open>cases\<close>, a
  new object, and the loop writes to that object.
\<close>

definition cell_latest :: "'d state \<Rightarrow> error + 'd state" where
  "cell_latest s =
     (case get_wide s (cases_ref s) of
        Inl e \<Rightarrow> Inl e
      | Inr (b, wide) \<Rightarrow>
          (case latest_cases wide of
             Inl e \<Rightarrow> Inl e
           | Inr snap \<Rightarrow>
               (case alloc (Wide snap) s of (c, s') \<Rightarrow> Inr (s'\<lparr>latest_cases_ref := Some c\<rparr>))))"

definition cell_this_week :: "rounding \<Rightarrow> 'd state \<Rightarrow> error + 'd state" where
  "cell_this_week rnd s =
     (case get_wide s (cases_ref s) of
        Inl e \<Rightarrow> Inl e
      | Inr (b, wide) \<Rightarrow>
          (case cases_this_week rnd wide of
             Inl e \<Rightarrow> Inl e
           | Inr snap \<Rightarrow>
               (case alloc (Wide snap) s of (c, s') \<Rightarrow> Inr (s'\<lparr>cases_this_week_ref := Some c\<rparr>))))"

text \<open>
  The cells in the order of the notebook, from the empty store; the result is the state
  after each of the cells 2 to 7. An error in a cell ends the run.
\<close>

definition run_notebook ::
  "rounding \<Rightarrow> 'd collapser \<Rightarrow> 'd csv_table \<Rightarrow>
   error + ('d state \<times> 'd state \<times> 'd state \<times> 'd state \<times> 'd state \<times> 'd state)" where
  "run_notebook rnd collapse csv =
     (case cell_read csv empty_state of Inl e \<Rightarrow> Inl e | Inr s2 \<Rightarrow>
      (case cell_cast s2 of Inl e \<Rightarrow> Inl e | Inr s3 \<Rightarrow>
       (case cell_collapse collapse s3 of Inl e \<Rightarrow> Inl e | Inr s4 \<Rightarrow>
        (case cell_per_capita rnd s4 of Inl e \<Rightarrow> Inl e | Inr s5 \<Rightarrow>
         (case cell_latest s5 of Inl e \<Rightarrow> Inl e | Inr s6 \<Rightarrow>
          (case cell_this_week rnd s6 of Inl e \<Rightarrow> Inl e | Inr s7 \<Rightarrow>
             Inr (s2, s3, s4, s5, s6, s7)))))))"

text \<open>The frame a variable refers to, when it is bound to one.\<close>

definition long_of :: "'d state \<Rightarrow> nat option \<Rightarrow> (int \<times> 'd) frame option" where
  "long_of s var = (case get_long s var of Inl e \<Rightarrow> None | Inr (a, df) \<Rightarrow> Some df)"

definition wide_of :: "'d state \<Rightarrow> nat option \<Rightarrow> int frame option" where
  "wide_of s var = (case get_wide s var of Inl e \<Rightarrow> None | Inr (a, df) \<Rightarrow> Some df)"

text \<open>
  The end-to-end example of the specification: county 01001 on the ten days from
  2021-01-01 to 2021-01-10, with a constant population of 1000.
\<close>

definition autauga_dates :: "(nat \<times> nat \<times> nat) list" where
  "autauga_dates =
     [(2021, 1, 1), (2021, 1, 2), (2021, 1, 3), (2021, 1, 4), (2021, 1, 5),
      (2021, 1, 6), (2021, 1, 7), (2021, 1, 8), (2021, 1, 9), (2021, 1, 10)]"

definition autauga_confirmed :: "npfloat list" where
  "autauga_confirmed = map Fin [10, 12, 15, 15, 20, 22, 25, 30, 33, 40]"

definition autauga_deaths :: "npfloat list" where
  "autauga_deaths = map Fin [0, 0, 0, 1, 1, 1, 2, 2, 2, 3]"

definition autauga_columns :: "cell \<Rightarrow> (string \<times> column) list" where
  "autauga_columns flag =
     [(''State'', Scalars (replicate 10 (Str ''Alabama''))),
      (''County'', Scalars (replicate 10 (Str ''Autauga''))),
      (''Population'', float_col (replicate 10 (Fin 1000))),
      (''Confirmed'', float_col autauga_confirmed),
      (''Deaths'', float_col autauga_deaths),
      (''Recovered'', float_col (replicate 10 (Fin 0))),
      (''Confirmed_Outlier'', Scalars (replicate 10 flag)),
      (''Deaths_Outlier'', Scalars (replicate 10 flag)),
      (''Recovered_Outlier'', Scalars (replicate 10 flag))]"

definition autauga_csv :: "(nat \<times> nat \<times> nat) csv_table" where
  "autauga_csv =
     \<lparr>FIPS = replicate 10 1001, Date = autauga_dates,
      data_columns = autauga_columns (Flag False)\<rparr>"

text \<open>The long table of the example with a given cell in the outlier columns.\<close>

definition autauga_long :: "cell \<Rightarrow> (int \<times> (nat \<times> nat \<times> nat)) frame" where
  "autauga_long flag =
     \<lparr>index = zip (replicate 10 1001) autauga_dates, columns = autauga_columns flag\<rparr>"

text \<open>The wide table of the example, as the collapser returns it.\<close>

definition autauga_wide :: "int frame" where
  "autauga_wide =
     \<lparr>index = [1001],
      columns =
        [(''State'', Scalars [Str ''Alabama'']),
         (''County'', Scalars [Str ''Autauga'']),
         (''Population'', float_col [Fin 1000]),
         (''Confirmed'', float_tensor 10 [autauga_confirmed]),
         (''Deaths'', float_tensor 10 [autauga_deaths]),
         (''Recovered'', float_tensor 10 [replicate 10 (Fin 0)]),
         (''Confirmed_Outlier'', Tensor 10 [replicate 10 (I8 0)]),
         (''Deaths_Outlier'', Tensor 10 [replicate 10 (I8 0)]),
         (''Recovered_Outlier'', Tensor 10 [replicate 10 (I8 0)])]\<rparr>"

text \<open>The store of the example after cell 2.\<close>

definition autauga_s2 :: "(nat \<times> nat \<times> nat) state" where
  "autauga_s2 =
     empty_state\<lparr>heap := (heap empty_state)(0 \<mapsto> Long (autauga_long (Flag False))),
                 next_ref := 1, cases_vertical_ref := Some 0\<rparr>"

text \<open>A source in which county 01001 has two rows on 2021-01-01.\<close>

definition duplicated_csv :: "(nat \<times> nat \<times> nat) csv_table" where
  "duplicated_csv =
     \<lparr>FIPS = [1001, 1001, 1001],
      Date = [(2021, 1, 1), (2021, 1, 2), (2021, 1, 1)],
      data_columns = [(''Confirmed'', float_col [Fin 10, Fin 12, Fin 11])]\<rparr>"

section \<open>Rendering\<close>

text \<open>
  \<^verbatim>\<open>def draw_map(df, col_name, label_str):\<close>
  \<^verbatim>\<open>    valid_data = df[~df[col_name].isna()]\<close>
  \<^verbatim>\<open>    fig = px.choropleth(valid_data, geojson=counties,\<close>
  \<^verbatim>\<open>                        locations=["{:05d}".format(f) for f in valid_data.index],\<close>
  \<^verbatim>\<open>                        color=col_name,\<close>
  \<^verbatim>\<open>                        range_color=(0, valid_data[col_name].quantile(0.95)),\<close>
  \<^verbatim>\<open>                        labels={col_name: label_str},\<close>
  \<^verbatim>\<open>                        hover_name=valid_data["County"],\<close>
  \<^verbatim>\<open>                        title=label_str)\<close>
  The model returns the arguments that the figure is built from. \<^verbatim>\<open>Series.quantile\<close> is
  a routine of pandas and a parameter of the model. A missing value of a scalar column is
  a float that is not-a-number; a \<^verbatim>\<open>TensorArray\<close> has no quantile.
\<close>

fun isna :: "cell \<Rightarrow> bool" where
  "isna (Num NaN) = True"
| "isna c = False"

text \<open>\<^verbatim>\<open>df[mask]\<close>: the rows at which the boolean mask holds, in every column.\<close>

definition mask_rows :: "bool list \<Rightarrow> 'a list \<Rightarrow> 'a list" where
  "mask_rows keep xs = map snd (filter fst (zip keep xs))"

fun mask_column :: "bool list \<Rightarrow> column \<Rightarrow> column" where
  "mask_column keep (Scalars vs) = Scalars (mask_rows keep vs)"
| "mask_column keep (Tensor n rows) = Tensor n (mask_rows keep rows)"

definition getitem_mask :: "'i frame \<Rightarrow> bool list \<Rightarrow> 'i frame" where
  "getitem_mask df keep =
     \<lparr>index = mask_rows keep (index df),
      columns = map (\<lambda>(name, c). (name, mask_column keep c)) (columns df)\<rparr>"

text \<open>
  \<^verbatim>\<open>"{:05d}".format(f)\<close>: the decimal digits of an integer, padded with zeros to the width
  five, the sign included.
\<close>

fun digits :: "nat \<Rightarrow> string" where
  "digits n =
     (if n < 10 then [''0123456789'' ! n] else digits (n div 10) @ [''0123456789'' ! (n mod 10)])"

declare digits.simps [simp del]

definition zero_pad :: "nat \<Rightarrow> string \<Rightarrow> string" where
  "zero_pad w s = replicate (w - length s) CHR ''0'' @ s"

definition format_05d :: "int \<Rightarrow> string" where
  "format_05d f =
     (if f < 0 then CHR ''-'' # zero_pad 4 (digits (nat (- f))) else zero_pad 5 (digits (nat f)))"

record figure =
  data :: "int frame"
  locations :: "string list"
  color :: string
  range_color :: "cell \<times> cell"
  labels :: "string \<times> string"
  hover_name :: column
  title :: string

definition draw_map ::
  "(cell list \<Rightarrow> real \<Rightarrow> error + cell) \<Rightarrow> int frame \<Rightarrow> string \<Rightarrow> string \<Rightarrow> error + figure" where
  "draw_map quantile df col_name label_str =
     (case getitem df col_name of
        Inl e \<Rightarrow> Inl e
      | Inr (Tensor n rows) \<Rightarrow> Inl TypeError
      | Inr (Scalars vs) \<Rightarrow>
          (let valid_data = getitem_mask df (map (\<lambda>v. \<not> isna v) vs)
           in case getitem valid_data col_name of
                Inl e \<Rightarrow> Inl e
              | Inr (Tensor n rows) \<Rightarrow> Inl TypeError
              | Inr (Scalars valid) \<Rightarrow>
                  (case quantile valid (95 / 100) of
                     Inl e \<Rightarrow> Inl e
                   | Inr upper \<Rightarrow>
                       (case getitem valid_data ''County'' of
                          Inl e \<Rightarrow> Inl e
                        | Inr county \<Rightarrow>
                            Inr \<lparr>data = valid_data,
                                 locations = map format_05d (index valid_data),
                                 color = col_name,
                                 range_color = (Num (Fin 0), upper),
                                 labels = (col_name, label_str),
                                 hover_name = county,
                                 title = label_str\<rparr>))))"

text \<open>
  A snapshot frame with a gap in its second row, and a stand-in for the quantile routine
  that returns the last of the values it is given.
\<close>

definition latest_snapshot :: "int frame" where
  "latest_snapshot =
     \<lparr>index = [1001, 1003, 1005],
      columns =
        [(''State'', Scalars [Str ''Alabama'', Str ''Alabama'', Str ''Alabama'']),
         (''County'', Scalars [Str ''Autauga'', Str ''Baldwin'', Str ''Barbour'']),
         (''Population'', float_col [Fin 1000, Fin 2000, Fin 0]),
         (''Confirmed_per_100'', float_col [Fin 4, NaN, PInf])]\<rparr>"

fun largest :: "cell list \<Rightarrow> real \<Rightarrow> error + cell" where
  "largest [] q = Inr (Num NaN)"
| "largest (v # vs) q = Inr (last (v # vs))"

section \<open>Properties of the derived metrics\<close>

lemma map_err_Inr_iff:
  "map_err f xs = Inr ys \<longleftrightarrow> length ys = length xs \<and> (\<forall>i<length xs. f (xs ! i) = Inr (ys ! i))"
proof (induction xs arbitrary: ys)
  case Nil
  then show ?case by auto
next
  case (Cons x xs)
  show ?case
  proof (cases ys)
    case Nil
    then show ?thesis by (auto split: sum.splits)
  next
    case (Cons y ys')
    then show ?thesis
      using Cons.IH [of ys']
      by (auto split: sum.splits simp: nth_Cons less_Suc_eq_0_disj split: nat.splits)
  qed
qed

lemma map_err_total:
  "(\<And>x. x \<in> set xs \<Longrightarrow> \<exists>y. f x = Inr y) \<Longrightarrow> \<exists>ys. map_err f xs = Inr ys"
  by (induction xs) (fastforce split: sum.splits)+

lemma getitem_list_base:
  assumes "list_all (is_scalar_col cases) cols"
  shows "\<exists>base. getitem_list cases cols = Inr base \<and> index base = index cases
       \<and> map fst (columns base) = cols
       \<and> (\<forall>c \<in> set cols. map_of (columns base) c = map_of (columns cases) c)"
  using assms
proof (induction cols)
  case Nil
  then show ?case by (simp add: getitem_list_def)
next
  case (Cons c cols)
  then obtain base where b: "getitem_list cases cols = Inr base" "index base = index cases"
     "map fst (columns base) = cols"
     "\<forall>c \<in> set cols. map_of (columns base) c = map_of (columns cases) c"
    by auto
  from Cons.prems obtain vs where v: "map_of (columns cases) c = Some (Scalars vs)"
    by (auto simp: is_scalar_col_def split: option.splits column.splits)
  from b(1) obtain cs where cs: "map_err (\<lambda>c. case getitem cases c of Inl e \<Rightarrow> Inl e | Inr v \<Rightarrow> Inr (c, v)) cols = Inr cs"
     "base = \<lparr>index = index cases, columns = cs\<rparr>"
    by (auto simp: getitem_list_def split: sum.splits)
  show ?case using v cs b
    by (auto simp: getitem_list_def getitem_def)
qed

lemma is_tensor_colD:
  assumes "is_tensor_col df n c"
  obtains rows where "map_of (columns df) c = Some (Tensor n rows)"
    "length rows = length (index df)" "\<forall>row\<in>set rows. length row = n"
  using assms
  by (auto simp: is_tensor_col_def list_all_iff split: option.splits column.splits)

lemma tensor_col_last:
  "0 < n \<Longrightarrow> tensor_col (n, rows) (- 1) = Inr (map (\<lambda>row. row ! (n - 1)) rows)"
  by (auto simp: tensor_col_def Let_def nat_diff_distrib' intro!: arg_cong [where f = "\<lambda>k. row ! k" for row])

lemma tensor_col_week:
  "8 \<le> n \<Longrightarrow> tensor_col (n, rows) (- 8) = Inr (map (\<lambda>row. row ! (n - 8)) rows)"
  by (auto simp: tensor_col_def Let_def nat_diff_distrib' intro!: arg_cong [where f = "\<lambda>k. row ! k" for row])

lemma tensor_col_short:
  "n < 8 \<Longrightarrow> tensor_col (n, rows) (- 8) = Inl IndexError"
  by (auto simp: tensor_col_def Let_def)

lemma tensor_col_empty:
  "tensor_col (0, rows) (- 1) = Inl IndexError"
  by (auto simp: tensor_col_def Let_def)

lemma for_cols_latest:
  assumes "list_all (is_tensor_col cases n) cols" "0 < n"
    "length (index acc) = length (index cases)"
  shows "\<exists>snap. for_cols (latest_step cases) acc cols = Inr snap \<and> index snap = index acc \<and>
     (\<forall>c. map_of (columns snap) c =
        (if c \<in> set cols
         then (case map_of (columns cases) c of
                 Some (Tensor m rows) \<Rightarrow> Some (Scalars (map (\<lambda>row. row ! (n - 1)) rows))
               | _ \<Rightarrow> None)
         else map_of (columns acc) c))"
  using assms
proof (induction cols arbitrary: acc)
  case Nil
  then show ?case by simp
next
  case (Cons col cols)
  from Cons.prems(1) have tc: "is_tensor_col cases n col" and rest: "list_all (is_tensor_col cases n) cols"
    by simp_all
  from tc obtain rows where rows: "map_of (columns cases) col = Some (Tensor n rows)"
    "length rows = length (index cases)"
    by (rule is_tensor_colD)
  define acc' where "acc' = acc\<lparr>columns := AList.update col (Scalars (map (\<lambda>row. row ! (n - 1)) rows)) (columns acc)\<rparr>"
  have step: "latest_step cases acc col = Inr acc'"
    using rows Cons.prems(2,3)
    by (simp add: latest_step_def get_tensor_def getitem_def tensor_col_last setitem_def acc'_def)
  have len: "length (index acc') = length (index cases)"
    using Cons.prems(3) by (simp add: acc'_def)
  from Cons.IH [OF rest Cons.prems(2) len]
  obtain snap where snap: "for_cols (latest_step cases) acc' cols = Inr snap" "index snap = index acc'"
    "\<forall>c. map_of (columns snap) c =
        (if c \<in> set cols
         then (case map_of (columns cases) c of
                 Some (Tensor m rows) \<Rightarrow> Some (Scalars (map (\<lambda>row. row ! (n - 1)) rows))
               | _ \<Rightarrow> None)
         else map_of (columns acc') c)"
    by blast
  have "for_cols (latest_step cases) acc (col # cols) = Inr snap"
    using step snap(1) by simp
  moreover have "index snap = index acc"
    using snap(2) by (simp add: acc'_def)
  moreover have "\<forall>c. map_of (columns snap) c =
        (if c \<in> set (col # cols)
         then (case map_of (columns cases) c of
                 Some (Tensor m rows) \<Rightarrow> Some (Scalars (map (\<lambda>row. row ! (n - 1)) rows))
               | _ \<Rightarrow> None)
         else map_of (columns acc) c)"
    using snap(3) rows(1) by (auto simp: acc'_def update_conv')
  ultimately show ?case by blast
qed

lemma sub_arrays_float:
  assumes "list_all is_num xs" "list_all is_num ys" "length xs = length ys"
  shows "\<exists>vs. sub_arrays rnd xs ys = Inr vs \<and> length vs = length xs \<and>
     (\<forall>r<length xs. np_sub rnd (xs ! r) (ys ! r) = Inr (vs ! r))"
proof -
  have "\<exists>v. (\<lambda>(x, y). np_sub rnd x y) p = Inr v" if "p \<in> set (zip xs ys)" for p
  proof -
    obtain x y where p: "p = (x, y)" by (cases p)
    with that have "x \<in> set xs" "y \<in> set ys" by (auto dest: set_zip_leftD set_zip_rightD)
    with assms have "is_num x" "is_num y" by (auto simp: list_all_iff)
    then show ?thesis using p by (cases x; cases y) auto
  qed
  then obtain vs where vs: "map_err (\<lambda>(x, y). np_sub rnd x y) (zip xs ys) = Inr vs"
    using map_err_total by blast
  then have "length vs = length xs \<and> (\<forall>r<length xs. np_sub rnd (xs ! r) (ys ! r) = Inr (vs ! r))"
    using assms(3) by (auto simp: map_err_Inr_iff)
  then show ?thesis using vs assms(3) by (simp add: sub_arrays_def)
qed

lemma is_float_tensorD:
  assumes "is_float_tensor df c" "map_of (columns df) c = Some (Tensor n rows)"
  shows "\<forall>row\<in>set rows. list_all is_num row"
  using assms by (auto simp: is_float_tensor_def list_all_iff)

lemma for_cols_this_week:
  assumes "list_all (is_tensor_col cases n) cols" "list_all (is_float_tensor cases) cols" "8 \<le> n"
    "length (index acc) = length (index cases)"
  shows "\<exists>snap. for_cols (this_week_step rnd cases) acc cols = Inr snap \<and> index snap = index acc \<and>
     (\<forall>c. if c \<in> set cols
          then (\<exists>rows vs. map_of (columns cases) c = Some (Tensor n rows) \<and>
                  map_of (columns snap) c = Some (Scalars vs) \<and> length vs = length rows \<and>
                  (\<forall>r<length rows. np_sub rnd (rows ! r ! (n - 1)) (rows ! r ! (n - 8)) = Inr (vs ! r)))
          else map_of (columns snap) c = map_of (columns acc) c)"
  using assms
proof (induction cols arbitrary: acc)
  case Nil
  then show ?case by simp
next
  case (Cons col cols)
  from Cons.prems(1) have tc: "is_tensor_col cases n col" and rest: "list_all (is_tensor_col cases n) cols"
    by simp_all
  from Cons.prems(2) have fc: "is_float_tensor cases col" and frest: "list_all (is_float_tensor cases) cols"
    by simp_all
  from tc obtain rows where rows: "map_of (columns cases) col = Some (Tensor n rows)"
    "length rows = length (index cases)" "\<forall>row\<in>set rows. length row = n"
    by (rule is_tensor_colD)
  have num: "\<forall>row\<in>set rows. list_all is_num row"
    using is_float_tensorD [OF fc rows(1)] .
  let ?a = "map (\<lambda>row. row ! (n - 1)) rows" and ?b = "map (\<lambda>row. row ! (n - 8)) rows"
  have "list_all is_num ?a" "list_all is_num ?b"
    using num rows(3) Cons.prems(3) by (auto simp: list_all_iff)
  from sub_arrays_float [OF this, of rnd]
  obtain vs where vs: "sub_arrays rnd ?a ?b = Inr vs" "length vs = length rows"
    "\<forall>r<length rows. np_sub rnd (rows ! r ! (n - 1)) (rows ! r ! (n - 8)) = Inr (vs ! r)"
    by auto
  define acc' where "acc' = acc\<lparr>columns := AList.update col (Scalars vs) (columns acc)\<rparr>"
  have n1: "0 < n" using Cons.prems(3) by simp
  have step: "this_week_step rnd cases acc col = Inr acc'"
    using rows vs Cons.prems(3,4) n1
    by (simp add: this_week_step_def get_tensor_def getitem_def tensor_col_last tensor_col_week
        setitem_def acc'_def)
  have len: "length (index acc') = length (index cases)"
    using Cons.prems(4) by (simp add: acc'_def)
  from Cons.IH [OF rest frest Cons.prems(3) len]
  obtain snap where snap: "for_cols (this_week_step rnd cases) acc' cols = Inr snap" "index snap = index acc'"
    "\<forall>c. if c \<in> set cols
          then (\<exists>rows vs. map_of (columns cases) c = Some (Tensor n rows) \<and>
                  map_of (columns snap) c = Some (Scalars vs) \<and> length vs = length rows \<and>
                  (\<forall>r<length rows. np_sub rnd (rows ! r ! (n - 1)) (rows ! r ! (n - 8)) = Inr (vs ! r)))
          else map_of (columns snap) c = map_of (columns acc') c"
    by blast
  have "for_cols (this_week_step rnd cases) acc (col # cols) = Inr snap"
    using step snap(1) by simp
  moreover have "index snap = index acc"
    using snap(2) by (simp add: acc'_def)
  moreover have "if c \<in> set (col # cols)
          then (\<exists>rows vs. map_of (columns cases) c = Some (Tensor n rows) \<and>
                  map_of (columns snap) c = Some (Scalars vs) \<and> length vs = length rows \<and>
                  (\<forall>r<length rows. np_sub rnd (rows ! r ! (n - 1)) (rows ! r ! (n - 8)) = Inr (vs ! r)))
          else map_of (columns snap) c = map_of (columns acc) c" for c
  proof (cases "c \<in> set cols")
    case True
    then show ?thesis using spec [OF snap(3), of c] by simp
  next
    case False
    then have eq: "map_of (columns snap) c = map_of (columns acc') c"
      using spec [OF snap(3), of c] by simp
    show ?thesis
    proof (cases "c = col")
      case True
      then show ?thesis using eq rows(1) vs(2,3) by (simp add: acc'_def update_conv')
    next
      case neq: False
      then show ?thesis using eq False by (simp add: acc'_def update_conv')
    qed
  qed
  ultimately show ?case by blast
qed

lemma latest_cases_wide:
  assumes "wide_table cases n" and "0 < n"
  shows "\<exists>snap. latest_cases cases = Inr snap \<and> index snap = index cases \<and>
     (\<forall>c\<in>set snapshot_base. getitem snap c = getitem cases c) \<and>
     (\<forall>c\<in>set snapshot_cols. \<exists>rows.
        getitem cases c = Inr (Tensor n rows) \<and> length rows = length (index cases) \<and>
        getitem snap c = Inr (Scalars (map (\<lambda>row. row ! (n - 1)) rows)))"
proof -
  from assms(1) have sc: "list_all (is_scalar_col cases) snapshot_base"
    and tc: "list_all (is_tensor_col cases n) snapshot_cols"
    by (simp_all add: wide_table_def)
  from getitem_list_base [OF sc]
  obtain base where base: "getitem_list cases snapshot_base = Inr base" "index base = index cases"
    "\<forall>c \<in> set snapshot_base. map_of (columns base) c = map_of (columns cases) c"
    by blast
  from for_cols_latest [OF tc assms(2), of base] base(2)
  obtain snap where snap: "for_cols (latest_step cases) base snapshot_cols = Inr snap"
    "index snap = index base"
    "\<forall>c. map_of (columns snap) c =
        (if c \<in> set snapshot_cols
         then (case map_of (columns cases) c of
                 Some (Tensor m rows) \<Rightarrow> Some (Scalars (map (\<lambda>row. row ! (n - 1)) rows))
               | _ \<Rightarrow> None)
         else map_of (columns base) c)"
    by auto
  have run: "latest_cases cases = Inr snap"
    using base(1) snap(1) by (simp add: latest_cases_def)
  have disj: "set snapshot_base \<inter> set snapshot_cols = {}"
    by (simp add: snapshot_base_def snapshot_cols_def)
  have b: "\<forall>c\<in>set snapshot_base. getitem snap c = getitem cases c"
    using snap(3) base(3) disj by (auto simp: getitem_def)
  have t: "\<exists>rows. getitem cases c = Inr (Tensor n rows) \<and> length rows = length (index cases) \<and>
        getitem snap c = Inr (Scalars (map (\<lambda>row. row ! (n - 1)) rows))"
    if "c \<in> set snapshot_cols" for c
  proof -
    from tc that have "is_tensor_col cases n c" by (simp add: list_all_iff)
    then obtain rows where "map_of (columns cases) c = Some (Tensor n rows)"
      "length rows = length (index cases)"
      by (rule is_tensor_colD)
    then show ?thesis using snap(3) that by (auto simp: getitem_def)
  qed
  show ?thesis using run snap(2) base(2) b t by auto
qed

lemma wide_table_two_counties:
  "length xs = n \<Longrightarrow> length ys = n \<Longrightarrow> wide_table (two_counties n xs ys) n"
  by (simp add: wide_table_def two_counties_def snapshot_base_def snapshot_cols_def
      is_scalar_col_def is_tensor_col_def float_tensor_def)

lemma float_tensors_two_counties: "float_tensors (two_counties n xs ys)"
  by (simp add: float_tensors_def two_counties_def snapshot_cols_def
      is_float_tensor_def float_tensor_def list_all_iff)

lemma cases_this_week_wide:
  assumes "wide_table cases n" and "float_tensors cases" and "8 \<le> n"
  shows "\<exists>snap. cases_this_week rnd cases = Inr snap \<and> index snap = index cases \<and>
     (\<forall>c\<in>set snapshot_base. getitem snap c = getitem cases c) \<and>
     (\<forall>c\<in>set snapshot_cols. \<exists>rows vs.
        getitem cases c = Inr (Tensor n rows) \<and> getitem snap c = Inr (Scalars vs) \<and>
        length vs = length (index cases) \<and> length rows = length (index cases) \<and>
        (\<forall>r<length rows. np_sub rnd (rows ! r ! (n - 1)) (rows ! r ! (n - 8)) = Inr (vs ! r)))"
proof -
  from assms(1) have sc: "list_all (is_scalar_col cases) snapshot_base"
    and tc: "list_all (is_tensor_col cases n) snapshot_cols"
    by (simp_all add: wide_table_def)
  from assms(2) have fc: "list_all (is_float_tensor cases) snapshot_cols"
    by (simp add: float_tensors_def)
  from getitem_list_base [OF sc]
  obtain base where base: "getitem_list cases snapshot_base = Inr base" "index base = index cases"
    "\<forall>c \<in> set snapshot_base. map_of (columns base) c = map_of (columns cases) c"
    by blast
  from for_cols_this_week [OF tc fc assms(3), of base rnd] base(2)
  obtain snap where snap: "for_cols (this_week_step rnd cases) base snapshot_cols = Inr snap"
    "index snap = index base"
    "\<forall>c. if c \<in> set snapshot_cols
          then (\<exists>rows vs. map_of (columns cases) c = Some (Tensor n rows) \<and>
                  map_of (columns snap) c = Some (Scalars vs) \<and> length vs = length rows \<and>
                  (\<forall>r<length rows. np_sub rnd (rows ! r ! (n - 1)) (rows ! r ! (n - 8)) = Inr (vs ! r)))
          else map_of (columns snap) c = map_of (columns base) c"
    by auto
  have run: "cases_this_week rnd cases = Inr snap"
    using base(1) snap(1) by (simp add: cases_this_week_def)
  have disj: "set snapshot_base \<inter> set snapshot_cols = {}"
    by (simp add: snapshot_base_def snapshot_cols_def)
  have b: "getitem snap c = getitem cases c" if "c \<in> set snapshot_base" for c
  proof -
    from that disj have "c \<notin> set snapshot_cols" by auto
    then have "map_of (columns snap) c = map_of (columns base) c"
      using spec [OF snap(3), of c] by simp
    then show ?thesis using base(3) that by (simp add: getitem_def)
  qed
  have t: "\<exists>rows vs.
        getitem cases c = Inr (Tensor n rows) \<and> getitem snap c = Inr (Scalars vs) \<and>
        length vs = length (index cases) \<and> length rows = length (index cases) \<and>
        (\<forall>r<length rows. np_sub rnd (rows ! r ! (n - 1)) (rows ! r ! (n - 8)) = Inr (vs ! r))"
    if "c \<in> set snapshot_cols" for c
  proof -
    from tc that have "is_tensor_col cases n c" by (simp add: list_all_iff)
    then obtain rows0 where r0: "map_of (columns cases) c = Some (Tensor n rows0)"
      "length rows0 = length (index cases)"
      by (rule is_tensor_colD)
    from that spec [OF snap(3), of c]
    obtain rows vs where rv: "map_of (columns cases) c = Some (Tensor n rows)"
      "map_of (columns snap) c = Some (Scalars vs)" "length vs = length rows"
      "\<forall>r<length rows. np_sub rnd (rows ! r ! (n - 1)) (rows ! r ! (n - 8)) = Inr (vs ! r)"
      by auto
    from r0 rv(1) have "rows = rows0" by simp
    then show ?thesis using rv r0(2) by (auto simp: getitem_def)
  qed
  show ?thesis using run snap(2) base(2) b t by auto
qed

text \<open>
  Claim C3. On a wide table of float64 sequences whose date axis has length \<open>n \<ge> 8\<close>,
  trailing-week extraction returns a snapshot frame in which each requested column holds,
  for each location, the value at position \<open>n - 1\<close> minus the value at position
  \<open>n - 8\<close> of that location's sequence.
\<close>

theorem cases_this_week_delta:
  assumes "wide_table cases n" and "float_tensors cases" and "8 \<le> n"
  shows "\<exists>snap. cases_this_week rnd cases = Inr snap \<and> index snap = index cases \<and>
     (\<forall>c\<in>set snapshot_base. getitem snap c = getitem cases c) \<and>
     (\<forall>c\<in>set snapshot_cols. \<exists>rows vs.
        getitem cases c = Inr (Tensor n rows) \<and> getitem snap c = Inr (Scalars vs) \<and>
        length vs = length (index cases) \<and> length rows = length (index cases) \<and>
        (\<forall>r<length rows. np_sub rnd (rows ! r ! (n - 1)) (rows ! r ! (n - 8)) = Inr (vs ! r)))"
  using assms by (rule cases_this_week_wide)

text \<open>Two counties over eight dates: the deltas are \<open>8 - 1\<close> and \<open>9 - 0\<close>.\<close>

theorem cases_this_week_delta_witness:
  "wide_table (two_counties 8 [1, 2, 3, 4, 5, 6, 7, 8] [0, 0, 1, 1, 2, 3, 5, 9]) 8 \<and>
   float_tensors (two_counties 8 [1, 2, 3, 4, 5, 6, 7, 8] [0, 0, 1, 1, 2, 3, 5, 9]) \<and>
   (8::nat) \<le> 8 \<and>
   (\<exists>snap. cases_this_week Fin (two_counties 8 [1, 2, 3, 4, 5, 6, 7, 8] [0, 0, 1, 1, 2, 3, 5, 9])
             = Inr snap \<and>
      getitem snap ''Confirmed'' = Inr (Scalars [Num (Fin 7), Num (Fin 9)]))"
proof -
  let ?c = "two_counties 8 [1, 2, 3, 4, 5, 6, 7, 8] [0, 0, 1, 1, 2, 3, 5, 9]"
  have w: "wide_table ?c 8" by (rule wide_table_two_counties) simp_all
  have f: "float_tensors ?c" by (rule float_tensors_two_counties)
  have n: "(8::nat) \<le> 8" by simp
  from cases_this_week_delta [OF w f n, of Fin]
  obtain snap where snap: "cases_this_week Fin ?c = Inr snap"
    "\<forall>c\<in>set snapshot_cols. \<exists>rows vs.
        getitem ?c c = Inr (Tensor 8 rows) \<and> getitem snap c = Inr (Scalars vs) \<and>
        length vs = length (index ?c) \<and> length rows = length (index ?c) \<and>
        (\<forall>r<length rows. np_sub Fin (rows ! r ! (8 - 1)) (rows ! r ! (8 - 8)) = Inr (vs ! r))"
    by blast
  from snap(2) obtain rows vs where rv: "getitem ?c ''Confirmed'' = Inr (Tensor 8 rows)"
    "getitem snap ''Confirmed'' = Inr (Scalars vs)" "length vs = length (index ?c)"
    "\<forall>r<length rows. np_sub Fin (rows ! r ! (8 - 1)) (rows ! r ! (8 - 8)) = Inr (vs ! r)"
    by (auto simp: snapshot_cols_def)
  from rv(1) have rows: "rows = [map Num (map Fin [1, 2, 3, 4, 5, 6, 7, 8]), map Num (map Fin [0, 0, 1, 1, 2, 3, 5, 9])]"
    by (simp add: getitem_def two_counties_def float_tensor_def)
  from rv(3) have l2: "length vs = 2" by (simp add: two_counties_def)
  from rv(4) rows have "vs ! 0 = Num (Fin 7)" "vs ! 1 = Num (Fin 9)"
    by (simp_all add: less_Suc_eq eval_nat_numeral)
  with l2 have "vs = [Num (Fin 7), Num (Fin 9)]"
    by (auto simp: list_eq_iff_nth_eq less_Suc_eq eval_nat_numeral nth_Cons')
  with w f n snap(1) rv(2) show ?thesis by auto
qed

text \<open>
  Claim C4. On a wide table whose date axis has fewer than 8 dates, trailing-week
  extraction returns no frame: slicing position \<open>-8\<close> (or \<open>-1\<close>, on an empty axis) of
  the first requested column is out of bounds and raises \<^verbatim>\<open>IndexError\<close>, the failure
  the specification calls an insufficient history.
\<close>

theorem cases_this_week_short_history:
  assumes "wide_table cases n" and "n < 8"
  shows "cases_this_week rnd cases = Inl IndexError"
proof -
  from assms(1) have sc: "list_all (is_scalar_col cases) snapshot_base"
    and tc: "is_tensor_col cases n ''Confirmed''"
    by (simp_all add: wide_table_def snapshot_cols_def)
  from getitem_list_base [OF sc]
  obtain base where base: "getitem_list cases snapshot_base = Inr base"
    by blast
  from tc obtain rows where rows: "map_of (columns cases) ''Confirmed'' = Some (Tensor n rows)"
    by (rule is_tensor_colD)
  have "this_week_step rnd cases base ''Confirmed'' = Inl IndexError"
  proof (cases "n = 0")
    case True
    then show ?thesis using rows
      by (simp add: this_week_step_def get_tensor_def getitem_def tensor_col_empty)
  next
    case False
    then show ?thesis using rows assms(2)
      by (simp add: this_week_step_def get_tensor_def getitem_def tensor_col_last tensor_col_short)
  qed
  then show ?thesis using base
    by (simp add: cases_this_week_def snapshot_cols_def)
qed

text \<open>Two counties over seven dates: one date short of a week.\<close>

theorem cases_this_week_short_history_witness:
  "wide_table (two_counties 7 [1, 2, 3, 4, 5, 6, 7] [0, 0, 1, 1, 2, 3, 5]) 7 \<and> (7::nat) < 8 \<and>
   cases_this_week Fin (two_counties 7 [1, 2, 3, 4, 5, 6, 7] [0, 0, 1, 1, 2, 3, 5]) = Inl IndexError"
proof -
  have w: "wide_table (two_counties 7 [1, 2, 3, 4, 5, 6, 7] [0, 0, 1, 1, 2, 3, 5]) 7"
    by (rule wide_table_two_counties) simp_all
  have n: "(7::nat) < 8" by simp
  show ?thesis using w n cases_this_week_short_history [OF w n, of Fin] by simp
qed

text \<open>
  Claim C6. On a wide table whose date axis is not empty (\<open>0 < n\<close>), latest-value
  extraction returns a snapshot frame on the same index: the three scalar columns are
  carried over, and each of the four requested columns holds one scalar per location,
  the value at position \<open>n - 1\<close> of that location's sequence.
\<close>

theorem latest_cases_last_value:
  assumes "wide_table cases n" and "0 < n"
  shows "\<exists>snap. latest_cases cases = Inr snap \<and> index snap = index cases \<and>
     (\<forall>c\<in>set snapshot_base. getitem snap c = getitem cases c) \<and>
     (\<forall>c\<in>set snapshot_cols. \<exists>rows.
        getitem cases c = Inr (Tensor n rows) \<and> length rows = length (index cases) \<and>
        getitem snap c = Inr (Scalars (map (\<lambda>row. row ! (n - 1)) rows)))"
  using assms by (rule latest_cases_wide)

text \<open>Two counties over three dates: the last values of each sequence.\<close>

theorem latest_cases_last_value_witness:
  "wide_table (two_counties 3 [10, 12, 15] [0, 1, 1]) 3 \<and> (0::nat) < 3 \<and>
   (\<exists>snap. latest_cases (two_counties 3 [10, 12, 15] [0, 1, 1]) = Inr snap \<and>
      getitem snap ''Confirmed'' = Inr (Scalars [Num (Fin 15), Num (Fin 1)]) \<and>
      getitem snap ''Deaths'' = Inr (Scalars [Num (Fin 1), Num (Fin 15)]))"
proof -
  let ?c = "two_counties 3 [10, 12, 15] [0, 1, 1]"
  have w: "wide_table ?c 3" by (rule wide_table_two_counties) simp_all
  have n: "(0::nat) < 3" by simp
  from latest_cases_last_value [OF w n]
  obtain snap where snap: "latest_cases ?c = Inr snap"
    "\<forall>c\<in>set snapshot_cols. \<exists>rows.
        getitem ?c c = Inr (Tensor 3 rows) \<and> length rows = length (index ?c) \<and>
        getitem snap c = Inr (Scalars (map (\<lambda>row. row ! (3 - 1)) rows))"
    by blast
  from snap(2) have "getitem snap ''Confirmed'' = Inr (Scalars [Num (Fin 15), Num (Fin 1)])"
    "getitem snap ''Deaths'' = Inr (Scalars [Num (Fin 1), Num (Fin 15)])"
    by (auto simp: snapshot_cols_def getitem_def two_counties_def float_tensor_def)
  with w n snap(1) show ?thesis by auto
qed

subsection \<open>The per-capita transform\<close>

lemma map_err_np_mul:
  "map_err (np_mul rnd k) (map Num xs) = Inr (map Num (map (fmul rnd k) xs))"
  by (induction xs) (simp_all add: np_mul_def)

lemma map_err_np_div:
  "map_err (\<lambda>x. np_div rnd x (Num p)) (map Num xs) = Inr (map Num (map (\<lambda>x. fdiv rnd x p) xs))"
  by (induction xs) (simp_all add: np_div_def)

lemma scale_float_tensor:
  "scale rnd k (float_tensor n raw) = Inr (float_tensor n (map (map (fmul rnd k)) raw))"
proof -
  have "map_err (map_err (np_mul rnd k)) (map (map Num) raw)
        = Inr (map (map Num) (map (map (fmul rnd k)) raw))"
    by (induction raw) (simp_all add: map_err_np_mul)
  then show ?thesis by (simp add: float_tensor_def)
qed

lemma broadcast_div_float:
  assumes "length raw = length population"
  shows "broadcast_div rnd (float_tensor n raw) (map Num population)
       = Inr (float_tensor n (map (\<lambda>(row, p). map (\<lambda>x. fdiv rnd x p) row) (zip raw population)))"
proof -
  have "map_err (\<lambda>(row, p). map_err (\<lambda>x. np_div rnd x p) row) (zip (map (map Num) raw) (map Num population))
      = Inr (map (map Num) (map (\<lambda>(row, p). map (\<lambda>x. fdiv rnd x p) row) (zip raw population)))"
    using assms by (induction raw population rule: list_induct2) (simp_all add: map_err_np_div)
  then show ?thesis using assms by (simp add: float_tensor_def)
qed

lemma per_capita_float:
  assumes "getitem cases col = Inr (float_tensor n raw)"
    and "getitem cases ''Population'' = Inr (float_col population)"
    and "length raw = length population"
  shows "per_capita rnd cases col
       = Inr (float_tensor n (map (\<lambda>(row, p). map (\<lambda>x. per_100_of rnd x p) row) (zip raw population)))"
proof -
  have "broadcast_div rnd (float_tensor n (map (map (fmul rnd (Fin 100))) raw)) (map Num population)
      = Inr (float_tensor n (map (\<lambda>(row, p). map (\<lambda>x. fdiv rnd x p) row)
               (zip (map (map (fmul rnd (Fin 100))) raw) population)))"
    using assms(3) by (simp add: broadcast_div_float)
  also have "(map (\<lambda>(row, p). map (\<lambda>x. fdiv rnd x p) row)
               (zip (map (map (fmul rnd (Fin 100))) raw) population))
      = map (\<lambda>(row, p). map (\<lambda>x. per_100_of rnd x p) row) (zip raw population)"
    by (simp add: zip_map1 case_prod_beta per_100_of_def)
  finally show ?thesis
    using assms(1,2) by (simp add: per_capita_def scale_float_tensor float_col_def)
qed

lemma per_100_of_zero:
  "per_100_of rnd x (Fin 0) =
     (case fmul rnd (Fin 100) x of
        Fin a \<Rightarrow> if a = 0 then NaN else if 0 < a then PInf else NInf
      | PInf \<Rightarrow> PInf | NInf \<Rightarrow> NInf | NaN \<Rightarrow> NaN)"
  by (cases "fmul rnd (Fin 100) x") (simp_all add: per_100_of_def)

lemma add_per_capita_float:
  assumes "getitem cases ''Confirmed'' = Inr (float_tensor n confirmed)"
    and "getitem cases ''Deaths'' = Inr (float_tensor n deaths)"
    and "getitem cases ''Population'' = Inr (float_col population)"
    and "length confirmed = length (index cases)"
    and "length deaths = length (index cases)"
    and "length population = length (index cases)"
  shows "add_per_capita rnd cases =
     Inr (cases\<lparr>columns :=
        AList.update ''Deaths_per_100''
          (float_tensor n (map (\<lambda>(row, p). map (\<lambda>x. per_100_of rnd x p) row) (zip deaths population)))
          (AList.update ''Confirmed_per_100''
            (float_tensor n (map (\<lambda>(row, p). map (\<lambda>x. per_100_of rnd x p) row) (zip confirmed population)))
            (columns cases))\<rparr>)"
proof -
  let ?c = "float_tensor n (map (\<lambda>(row, p). map (\<lambda>x. per_100_of rnd x p) row) (zip confirmed population))"
  let ?cases1 = "cases\<lparr>columns := AList.update ''Confirmed_per_100'' ?c (columns cases)\<rparr>"
  have c: "per_capita rnd cases ''Confirmed'' = Inr ?c"
    using assms by (simp add: per_capita_float)
  have s1: "setitem cases ''Confirmed_per_100'' ?c = Inr ?cases1"
    using assms by (simp add: setitem_def float_tensor_def)
  have g1: "getitem ?cases1 ''Deaths'' = Inr (float_tensor n deaths)"
    "getitem ?cases1 ''Population'' = Inr (float_col population)"
    using assms(2,3) by (simp_all add: getitem_def update_conv')
  have d: "per_capita rnd ?cases1 ''Deaths''
     = Inr (float_tensor n (map (\<lambda>(row, p). map (\<lambda>x. per_100_of rnd x p) row) (zip deaths population)))"
    using g1 assms by (simp add: per_capita_float)
  show ?thesis
    using c s1 d assms by (simp add: add_per_capita_def setitem_def float_tensor_def)
qed

lemma per_100_rows_props:
  assumes "length raw = length population"
  shows "length (map (\<lambda>(row, p). map (\<lambda>x. per_100_of rnd x p) row) (zip raw population)) = length raw \<and>
     (\<forall>r<length raw.
        length (map (\<lambda>(row, p). map (\<lambda>x. per_100_of rnd x p) row) (zip raw population) ! r)
          = length (raw ! r) \<and>
        (\<forall>i<length (raw ! r).
           map (\<lambda>(row, p). map (\<lambda>x. per_100_of rnd x p) row) (zip raw population) ! r ! i
             = per_100_of rnd (raw ! r ! i) (population ! r) \<and>
           (population ! r = Fin 0 \<longrightarrow>
              map (\<lambda>(row, p). map (\<lambda>x. per_100_of rnd x p) row) (zip raw population) ! r ! i
                \<in> {NaN, PInf, NInf} \<and>
              (map (\<lambda>(row, p). map (\<lambda>x. per_100_of rnd x p) row) (zip raw population) ! r ! i = NaN
                 \<longleftrightarrow> fmul rnd (Fin 100) (raw ! r ! i) \<in> {NaN, Fin 0}))))"
proof -
  have z: "per_100_of rnd x (Fin 0) \<in> {NaN, PInf, NInf} \<and>
      (per_100_of rnd x (Fin 0) = NaN \<longleftrightarrow> fmul rnd (Fin 100) x \<in> {NaN, Fin 0})" for x
    by (cases "fmul rnd (Fin 100) x") (simp_all add: per_100_of_zero)
  show ?thesis using assms z by (simp, blast)
qed

text \<open>
  Claim C5 (amended). On float64 sequences and populations the per-capita transform
  returns, and adds the two columns with \<open>per_100[i] = 100.0 * raw[i] / population\<close> at
  every position of every row, in float64 arithmetic. Where the population of a row is
  zero the value is never finite: it is not-a-number exactly where \<open>100.0 * raw[i]\<close> is
  zero or not-a-number, and an infinity elsewhere.
\<close>

theorem add_per_capita_values:
  assumes "getitem cases ''Confirmed'' = Inr (float_tensor n confirmed)"
    and "getitem cases ''Deaths'' = Inr (float_tensor n deaths)"
    and "getitem cases ''Population'' = Inr (float_col population)"
    and "length confirmed = length (index cases)"
    and "length deaths = length (index cases)"
    and "length population = length (index cases)"
  shows "\<exists>cases'. add_per_capita rnd cases = Inr cases' \<and> index cases' = index cases \<and>
     (\<forall>(c, raw) \<in> {(''Confirmed'', confirmed), (''Deaths'', deaths)}. \<exists>out.
        getitem cases' (c @ ''_per_100'') = Inr (float_tensor n out) \<and> length out = length raw \<and>
        (\<forall>r<length raw. length (out ! r) = length (raw ! r) \<and>
          (\<forall>i<length (raw ! r).
             out ! r ! i = per_100_of rnd (raw ! r ! i) (population ! r) \<and>
             (population ! r = Fin 0 \<longrightarrow>
                out ! r ! i \<in> {NaN, PInf, NInf} \<and>
                (out ! r ! i = NaN \<longleftrightarrow> fmul rnd (Fin 100) (raw ! r ! i) \<in> {NaN, Fin 0})))))"
proof -
  let ?out = "\<lambda>raw. map (\<lambda>(row, p). map (\<lambda>x. per_100_of rnd x p) row) (zip raw population)"
  let ?cases' = "cases\<lparr>columns :=
        AList.update ''Deaths_per_100'' (float_tensor n (?out deaths))
          (AList.update ''Confirmed_per_100'' (float_tensor n (?out confirmed)) (columns cases))\<rparr>"
  have run: "add_per_capita rnd cases = Inr ?cases'"
    using assms by (rule add_per_capita_float)
  have gc: "getitem ?cases' (''Confirmed'' @ ''_per_100'') = Inr (float_tensor n (?out confirmed))"
    and gd: "getitem ?cases' (''Deaths'' @ ''_per_100'') = Inr (float_tensor n (?out deaths))"
    by (simp_all add: getitem_def update_conv')
  have lc: "length confirmed = length population" and ld: "length deaths = length population"
    using assms(4,5,6) by simp_all
  note pc = per_100_rows_props [OF lc, of rnd] and pd = per_100_rows_props [OF ld, of rnd]
  have per: "\<exists>out.
        getitem ?cases' (c @ ''_per_100'') = Inr (float_tensor n out) \<and> length out = length raw \<and>
        (\<forall>r<length raw. length (out ! r) = length (raw ! r) \<and>
          (\<forall>i<length (raw ! r).
             out ! r ! i = per_100_of rnd (raw ! r ! i) (population ! r) \<and>
             (population ! r = Fin 0 \<longrightarrow>
                out ! r ! i \<in> {NaN, PInf, NInf} \<and>
                (out ! r ! i = NaN \<longleftrightarrow> fmul rnd (Fin 100) (raw ! r ! i) \<in> {NaN, Fin 0}))))"
    if "(c, raw) \<in> {(''Confirmed'', confirmed), (''Deaths'', deaths)}" for c raw
  proof -
    from that consider "c = ''Confirmed''" "raw = confirmed" | "c = ''Deaths''" "raw = deaths"
      by auto
    then show ?thesis
    proof cases
      case 1
      show ?thesis unfolding 1 using gc pc by (intro exI [of _ "?out confirmed"]) blast
    next
      case 2
      show ?thesis unfolding 2 using gd pd by (intro exI [of _ "?out deaths"]) blast
    qed
  qed
  show ?thesis
  proof (intro exI [of _ ?cases'] conjI ballI)
    show "add_per_capita rnd cases = Inr ?cases'" by (rule run)
    show "index ?cases' = index cases" by simp
  next
    fix x
    assume xin: "x \<in> {(''Confirmed'', confirmed), (''Deaths'', deaths)}"
    obtain c raw where x: "x = (c, raw)" by (cases x)
    from xin x have m: "(c, raw) \<in> {(''Confirmed'', confirmed), (''Deaths'', deaths)}" by simp
    show "case x of (c, raw) \<Rightarrow> \<exists>out.
        getitem ?cases' (c @ ''_per_100'') = Inr (float_tensor n out) \<and> length out = length raw \<and>
        (\<forall>r<length raw. length (out ! r) = length (raw ! r) \<and>
          (\<forall>i<length (raw ! r).
             out ! r ! i = per_100_of rnd (raw ! r ! i) (population ! r) \<and>
             (population ! r = Fin 0 \<longrightarrow>
                out ! r ! i \<in> {NaN, PInf, NInf} \<and>
                (out ! r ! i = NaN \<longleftrightarrow> fmul rnd (Fin 100) (raw ! r ! i) \<in> {NaN, Fin 0}))))"
      unfolding x prod.case by (rule per [OF m])
  qed
qed

text \<open>Two counties of populations 1000 and 2000 over two dates.\<close>

theorem add_per_capita_values_witness:
  "getitem (two_counties 2 [10, 40] [0, 1]) ''Confirmed'' = Inr (float_tensor 2 [[Fin 10, Fin 40], [Fin 0, Fin 1]]) \<and>
   getitem (two_counties 2 [10, 40] [0, 1]) ''Deaths'' = Inr (float_tensor 2 [[Fin 0, Fin 1], [Fin 10, Fin 40]]) \<and>
   getitem (two_counties 2 [10, 40] [0, 1]) ''Population'' = Inr (float_col [Fin 1000, Fin 2000]) \<and>
   (\<exists>cases'. add_per_capita Fin (two_counties 2 [10, 40] [0, 1]) = Inr cases' \<and>
      getitem cases' ''Confirmed_per_100'' = Inr (float_tensor 2 [[Fin 1, Fin 4], [Fin 0, Fin (1 / 20)]]))"
proof -
  let ?t = "two_counties 2 [10, 40] [0, 1]"
  have c: "getitem ?t ''Confirmed'' = Inr (float_tensor 2 [[Fin 10, Fin 40], [Fin 0, Fin 1]])"
    and d: "getitem ?t ''Deaths'' = Inr (float_tensor 2 [[Fin 0, Fin 1], [Fin 10, Fin 40]])"
    and p: "getitem ?t ''Population'' = Inr (float_col [Fin 1000, Fin 2000])"
    by (simp_all add: two_counties_def getitem_def float_col_def)
  have l: "length [[Fin 10, Fin 40], [Fin 0, Fin 1]] = length (index ?t)"
    "length [[Fin 0, Fin 1], [Fin 10, Fin 40]] = length (index ?t)"
    "length [Fin 1000, Fin 2000] = length (index ?t)"
    by (simp_all add: two_counties_def)
  from add_per_capita_values [OF c d p l, of Fin]
  obtain cases' out where r: "add_per_capita Fin ?t = Inr cases'"
    "getitem cases' ''Confirmed_per_100'' = Inr (float_tensor 2 out)" "length out = 2"
    "\<forall>r<2. length (out ! r) = length ([[Fin 10, Fin 40], [Fin 0, Fin 1]] ! r) \<and>
       (\<forall>i<length ([[Fin 10, Fin 40], [Fin 0, Fin 1]] ! r).
          out ! r ! i = per_100_of Fin ([[Fin 10, Fin 40], [Fin 0, Fin 1]] ! r ! i) ([Fin 1000, Fin 2000] ! r))"
    by fastforce
  from r(4) have "length (out ! 0) = 2" "length (out ! 1) = 2"
    "out ! 0 ! 0 = Fin 1" "out ! 0 ! 1 = Fin 4" "out ! 1 ! 0 = Fin 0" "out ! 1 ! 1 = Fin (1 / 20)"
    by (simp_all add: per_100_of_def less_Suc_eq eval_nat_numeral)
  with r(3) have "out = [[Fin 1, Fin 4], [Fin 0, Fin (1 / 20)]]"
    by (auto simp: list_eq_iff_nth_eq less_Suc_eq eval_nat_numeral nth_Cons')
  with c d p r(1,2) show ?thesis by auto
qed

text \<open>
  Claim C5 as stated fails: with population zero and five confirmed cases, numpy's
  division yields \<open>+inf\<close>, not not-a-number (second position of \<^verbatim>\<open>Confirmed_per_100\<close>).
\<close>

theorem per_capita_zero_population_counterexample:
  "add_per_capita Fin zero_population =
     Inr (zero_population\<lparr>columns := columns zero_population @
        [(''Confirmed_per_100'', float_tensor 2 [[NaN, PInf]]),
         (''Deaths_per_100'', float_tensor 2 [[NaN, NaN]])]\<rparr>)"
  by (simp add: add_per_capita_def per_capita_def getitem_def setitem_def zero_population_def
      float_tensor_def float_col_def np_mul_def np_div_def)

section \<open>Properties of the collapser\<close>

lemma map_err_cong_set:
  "(\<And>x. x \<in> set xs \<Longrightarrow> f x = g x) \<Longrightarrow> map_err f xs = map_err g xs"
  by (induction xs) (simp_all cong: sum.case_cong)

lemma position_Some:
  "x \<in> set xs \<Longrightarrow> \<exists>i. position x xs = Some i \<and> i < length xs \<and> xs ! i = x"
  by (induction xs) auto

lemma collapse_columns:
  assumes "\<forall>p\<in>set cols. \<exists>vs. snd p = Scalars vs"
  shows "\<exists>cs. map_err (\<lambda>(name, c).
                  case collapse_column keys locs dates (name \<in> T) c of
                    Inl e \<Rightarrow> Inl e
                  | Inr c' \<Rightarrow> Inr (name, c')) cols = Inr cs \<and>
     (\<forall>name. map_of cs name =
        (case map_of cols name of
           Some (Scalars vs) \<Rightarrow> Some (collapse_values keys locs dates (name \<in> T) vs)
         | _ \<Rightarrow> None))"
  using assms
proof (induction cols)
  case Nil
  then show ?case by simp
next
  case (Cons p cols)
  obtain name c where p: "p = (name, c)" by (cases p)
  from Cons.prems p obtain vs where c: "c = Scalars vs" by auto
  from Cons obtain cs where cs: "map_err (\<lambda>(name, c).
                  case collapse_column keys locs dates (name \<in> T) c of
                    Inl e \<Rightarrow> Inl e
                  | Inr c' \<Rightarrow> Inr (name, c')) cols = Inr cs"
    "\<forall>name. map_of cs name =
        (case map_of cols name of
           Some (Scalars vs) \<Rightarrow> Some (collapse_values keys locs dates (name \<in> T) vs)
         | _ \<Rightarrow> None)"
    by auto
  show ?case
    using cs p c
    by (intro exI [of _ "(name, collapse_values keys locs dates (name \<in> T) vs) # cs"])
       (simp add: collapse_column_def)
qed

lemma long_table_scalars:
  assumes "long_table df ts_cols"
  shows "\<forall>p\<in>set (columns df). \<exists>vs. snd p = Scalars vs"
proof
  fix p assume "p \<in> set (columns df)"
  then have "scalar_of_length (length (index df)) (snd p)"
    using assms by (auto simp: long_table_def list_all_iff)
  then show "\<exists>vs. snd p = Scalars vs"
    by (cases "snd p") simp_all
qed

lemma long_table_requested:
  assumes "long_table df ts_cols" "c \<in> set ts_cols"
  obtains vs where "map_of (columns df) c = Some (Scalars vs)" "length vs = length (index df)"
proof -
  from assms have "c \<in> fst ` set (columns df)"
    by (auto simp: long_table_def list_all_iff)
  then obtain col where col: "map_of (columns df) c = Some col"
    by (cases "map_of (columns df) c") (auto simp: map_of_eq_None_iff)
  then have "(c, col) \<in> set (columns df)" by (rule map_of_SomeD)
  then have "scalar_of_length (length (index df)) col"
    using assms(1) by (auto simp: long_table_def list_all_iff)
  then obtain vs where "col = Scalars vs" "length vs = length (index df)"
    by (cases col) simp_all
  with col that show ?thesis by simp
qed

lemma collapse_time_series_long:
  assumes "long_table df ts_cols"
  shows "\<exists>cs. collapse_time_series df ts_cols =
            Inr (\<lparr>index = sort (remdups (map fst (index df))), columns = cs\<rparr>,
                 sort (remdups (map snd (index df)))) \<and>
     (\<forall>c\<in>set ts_cols. \<exists>vs. map_of (columns df) c = Some (Scalars vs) \<and>
        length vs = length (index df) \<and>
        map_of cs c = Some (collapse_values (index df) (sort (remdups (map fst (index df))))
                              (sort (remdups (map snd (index df)))) True vs))"
proof -
  let ?locs = "sort (remdups (map fst (index df)))" and ?dates = "sort (remdups (map snd (index df)))"
  from collapse_columns [OF long_table_scalars [OF assms], of "index df" ?locs ?dates "set ts_cols"]
  obtain cs where cs: "map_err (\<lambda>(name, c).
                  case collapse_column (index df) ?locs ?dates (name \<in> set ts_cols) c of
                    Inl e \<Rightarrow> Inl e
                  | Inr c' \<Rightarrow> Inr (name, c')) (columns df) = Inr cs"
    "\<forall>name. map_of cs name =
        (case map_of (columns df) name of
           Some (Scalars vs) \<Rightarrow> Some (collapse_values (index df) ?locs ?dates (name \<in> set ts_cols) vs)
         | _ \<Rightarrow> None)"
    by blast
  have run: "collapse_time_series df ts_cols = Inr (\<lparr>index = ?locs, columns = cs\<rparr>, ?dates)"
    using assms cs(1) by (simp add: collapse_time_series_def long_table_def)
  have "\<exists>vs. map_of (columns df) c = Some (Scalars vs) \<and> length vs = length (index df) \<and>
        map_of cs c = Some (collapse_values (index df) ?locs ?dates True vs)"
    if "c \<in> set ts_cols" for c
  proof -
    from long_table_requested [OF assms that]
    obtain vs where vs: "map_of (columns df) c = Some (Scalars vs)" "length vs = length (index df)"
      by blast
    then show ?thesis using spec [OF cs(2), of c] that by simp
  qed
  with run show ?thesis by blast
qed

text \<open>
  Claim C2. On every long table the collapser returns: the date axis is sorted ascending
  without duplicates, its length is the number of distinct dates of the input, and every
  requested measurement field is a tensor column with one sequence per location, each of
  the length of the date axis.
\<close>

theorem collapse_well_formed:
  assumes "long_table df ts_cols"
  shows "\<exists>wide dates. collapse_time_series df ts_cols = Inr (wide, dates) \<and>
     sorted dates \<and> distinct dates \<and> length dates = card (snd ` set (index df)) \<and>
     (\<forall>c\<in>set ts_cols. \<exists>rows.
        getitem wide c = Inr (Tensor (length dates) rows) \<and>
        length rows = length (index wide) \<and>
        (\<forall>row\<in>set rows. length row = length dates))"
proof -
  let ?locs = "sort (remdups (map fst (index df)))" and ?dates = "sort (remdups (map snd (index df)))"
  from collapse_time_series_long [OF assms]
  obtain cs where cs: "collapse_time_series df ts_cols =
            Inr (\<lparr>index = ?locs, columns = cs\<rparr>, ?dates)"
    "\<forall>c\<in>set ts_cols. \<exists>vs. map_of (columns df) c = Some (Scalars vs) \<and>
        length vs = length (index df) \<and>
        map_of cs c = Some (collapse_values (index df) ?locs ?dates True vs)"
    by blast
  have "length ?dates = card (set (map snd (index df)))"
    by (simp add: length_remdups_card_conv)
  then have len: "length ?dates = card (snd ` set (index df))" by simp
  have "\<exists>rows. getitem \<lparr>index = ?locs, columns = cs\<rparr> c = Inr (Tensor (length ?dates) rows) \<and>
        length rows = length (index \<lparr>index = ?locs, columns = cs\<rparr>) \<and>
        (\<forall>row\<in>set rows. length row = length ?dates)"
    if "c \<in> set ts_cols" for c
    using cs(2) that by (fastforce simp: getitem_def collapse_values_def)
  with cs(1) len show ?thesis by (intro exI [of _ "\<lparr>index = ?locs, columns = cs\<rparr>"] exI [of _ ?dates]) simp
qed

lemma expand_cell_collapsed:
  fixes keys :: "(int \<times> 'd::linorder) list"
  assumes "distinct keys" "length vs = length keys" "k < length keys"
  shows "expand_cell (sort (remdups (map fst keys))) (sort (remdups (map snd keys)))
           (map (\<lambda>l. map (\<lambda>d. lookup_or_gap (zip keys vs) (l, d)) (sort (remdups (map snd keys))))
              (sort (remdups (map fst keys))))
           (keys ! k) = Inr (vs ! k)"
proof -
  let ?locs = "sort (remdups (map fst keys))" and ?dates = "sort (remdups (map snd keys))"
  have "fst (keys ! k) \<in> set ?locs" "snd (keys ! k) \<in> set ?dates"
    using assms(3) by (auto intro!: image_eqI [where x = "keys ! k"])
  then obtain r i where r: "position (fst (keys ! k)) ?locs = Some r" "r < length ?locs"
      "?locs ! r = fst (keys ! k)"
    and i: "position (snd (keys ! k)) ?dates = Some i" "i < length ?dates"
      "?dates ! i = snd (keys ! k)"
    using position_Some by metis
  have "map_of (zip keys vs) (keys ! k) = Some (vs ! k)"
    using assms by (simp add: map_of_zip_nth)
  then have "lookup_or_gap (zip keys vs) (?locs ! r, ?dates ! i) = vs ! k"
    using r(3) i(3) by (simp add: lookup_or_gap_def)
  then show ?thesis using r i by (simp add: expand_cell_def)
qed

text \<open>
  Claim C1. On every long table (uniquely keyed), collapsing and then re-expanding over
  the keys of the original returns the original restricted to the requested measurement
  fields: the same keys in the same order, and for every key the original cell of every
  field.
\<close>

theorem collapse_expand_round_trip:
  assumes "long_table df ts_cols"
  shows "\<exists>wide dates original. collapse_time_series df ts_cols = Inr (wide, dates) \<and>
     getitem_list df ts_cols = Inr original \<and>
     expand_time_series wide dates (index df) ts_cols = Inr original"
proof -
  let ?keys = "index df"
  let ?locs = "sort (remdups (map fst ?keys))" and ?dates = "sort (remdups (map snd ?keys))"
  from collapse_time_series_long [OF assms]
  obtain cs where cs: "collapse_time_series df ts_cols =
            Inr (\<lparr>index = ?locs, columns = cs\<rparr>, ?dates)"
    "\<forall>c\<in>set ts_cols. \<exists>vs. map_of (columns df) c = Some (Scalars vs) \<and>
        length vs = length (index df) \<and>
        map_of cs c = Some (collapse_values (index df) ?locs ?dates True vs)"
    by blast
  let ?wide = "\<lparr>index = ?locs, columns = cs\<rparr>"
  have d: "distinct ?keys" using assms by (simp add: long_table_def)
  have col: "expand_column ?wide ?dates ?keys c
      = (case getitem df c of Inl e \<Rightarrow> Inl e | Inr v \<Rightarrow> Inr (c, v))
    \<and> (\<exists>v. getitem df c = Inr v)" if "c \<in> set ts_cols" for c
  proof -
    from cs(2) that obtain vs where vs: "map_of (columns df) c = Some (Scalars vs)"
      "length vs = length ?keys"
      "map_of cs c = Some (collapse_values ?keys ?locs ?dates True vs)"
      by blast
    let ?rows = "map (\<lambda>l. map (\<lambda>d. lookup_or_gap (zip ?keys vs) (l, d)) ?dates) ?locs"
    have t: "get_tensor ?wide c = Inr (length ?dates, ?rows)"
      using vs(3) by (simp add: get_tensor_def getitem_def collapse_values_def)
    have "map_err (expand_cell ?locs ?dates ?rows) ?keys = Inr vs"
      using expand_cell_collapsed [OF d vs(2)] vs(2) by (simp add: map_err_Inr_iff)
    then show ?thesis using t vs(1) by (simp add: expand_column_def getitem_def)
  qed
  then have "map_err (expand_column ?wide ?dates ?keys) ts_cols
      = map_err (\<lambda>c. case getitem df c of Inl e \<Rightarrow> Inl e | Inr v \<Rightarrow> Inr (c, v)) ts_cols"
    by (intro map_err_cong_set) simp
  moreover have "\<exists>sel. map_err (\<lambda>c. case getitem df c of Inl e \<Rightarrow> Inl e | Inr v \<Rightarrow> Inr (c, v)) ts_cols
      = Inr sel"
  proof (rule map_err_total)
    fix c assume "c \<in> set ts_cols"
    with col obtain v where "getitem df c = Inr v" by blast
    then show "\<exists>y. (case getitem df c of Inl e \<Rightarrow> Inl e | Inr v \<Rightarrow> Inr (c, v)) = Inr y"
      by simp
  qed
  ultimately obtain sel where sel:
    "map_err (\<lambda>c. case getitem df c of Inl e \<Rightarrow> Inl e | Inr v \<Rightarrow> Inr (c, v)) ts_cols = Inr sel"
    "map_err (expand_column ?wide ?dates ?keys) ts_cols = Inr sel"
    by auto
  show ?thesis
    using cs(1) sel
    by (intro exI [of _ ?wide] exI [of _ ?dates] exI [of _ "\<lparr>index = ?keys, columns = sel\<rparr>"])
       (simp add: getitem_list_def expand_time_series_def)
qed

lemma long_table_gappy: "long_table gappy_long [''Confirmed'', ''Confirmed_Outlier'']"
  by (simp add: long_table_def gappy_long_def)

lemma collapse_gappy:
  "collapse_time_series gappy_long [''Confirmed'', ''Confirmed_Outlier''] =
     Inr (\<lparr>index = [1001, 1003],
           columns =
             [(''State'', Scalars [Str ''Alabama'', Str ''Alabama'']),
              (''Confirmed'', Tensor 3 [[Num (Fin 2), gap, gap], [gap, Num (Fin 1), Num (Fin 3)]]),
              (''Confirmed_Outlier'', Tensor 3 [[I8 1, gap, gap], [gap, I8 0, I8 0]])]\<rparr>,
          [(2021, 1, 1), (2021, 1, 2), (2021, 1, 3)])"
  by (simp add: collapse_time_series_def gappy_long_def collapse_column_def collapse_values_def
      lookup_or_gap_def)



section \<open>Properties of the notebook run\<close>

lemma replicate_10: "replicate 10 x = [x, x, x, x, x, x, x, x, x, x]"
  by (simp add: eval_nat_numeral)

lemma set_index_autauga: "set_index autauga_csv = Inr (autauga_long (Flag False))"
  by (simp add: set_index_def autauga_csv_def autauga_long_def autauga_dates_def replicate_10)

lemma cast_outliers_autauga: "cast_outliers (autauga_long (Flag False)) = Inr (autauga_long (I8 0))"
  by (simp add: cast_outliers_def outlier_cols_def cast_step_def getitem_def setitem_def
      autauga_long_def autauga_columns_def replicate_10 autauga_dates_def)

lemma collapse_autauga:
  "collapse_time_series (autauga_long (I8 0)) measurement_cols = Inr (autauga_wide, autauga_dates)"
  by (simp add: collapse_time_series_def measurement_cols_def autauga_long_def autauga_columns_def
      autauga_dates_def autauga_wide_def collapse_column_def collapse_values_def lookup_or_gap_def
      float_col_def float_tensor_def autauga_confirmed_def autauga_deaths_def replicate_10)

lemma run_notebookI:
  assumes "set_index csv = Inr cv" and "cast_outliers cv = Inr cv'"
    and "collapse cv' measurement_cols = Inr (w, ds)" and "add_per_capita rnd w = Inr w'"
    and "latest_cases w' = Inr l" and "cases_this_week rnd w' = Inr t"
  shows "\<exists>s2 s3 s4 s5 s6 s7. run_notebook rnd collapse csv = Inr (s2, s3, s4, s5, s6, s7) \<and>
     (\<forall>s\<in>{s2, s3, s4, s5, s6, s7}. cases_vertical_ref s = Some 0) \<and>
     (\<forall>s\<in>{s4, s5, s6, s7}. cases_ref s = Some 1) \<and>
     long_of s2 (Some 0) = Some cv \<and>
     (\<forall>s\<in>{s3, s4, s5, s6, s7}. long_of s (Some 0) = Some cv') \<and>
     wide_of s4 (Some 1) = Some w \<and>
     (\<forall>s\<in>{s5, s6, s7}. wide_of s (Some 1) = Some w') \<and>
     wide_of s7 (latest_cases_ref s7) = Some l \<and>
     wide_of s7 (cases_this_week_ref s7) = Some t \<and>
     dates_var s7 = Some ds"
  using assms
  by (simp add: run_notebook_def cell_read_def cell_cast_def cell_collapse_def cell_per_capita_def
      cell_latest_def cell_this_week_def alloc_def empty_state_def get_long_def get_wide_def
      long_of_def wide_of_def)

lemma run_notebookE:
  assumes "run_notebook rnd collapse csv = Inr tr"
  obtains cv cv' w ds w' l t where
    "set_index csv = Inr cv" "cast_outliers cv = Inr cv'"
    "collapse cv' measurement_cols = Inr (w, ds)" "add_per_capita rnd w = Inr w'"
    "latest_cases w' = Inr l" "cases_this_week rnd w' = Inr t"
proof -
  from assms obtain s2 s3 s4 s5 s6 where
    c2: "cell_read csv empty_state = Inr s2" and c3: "cell_cast s2 = Inr s3"
    and c4: "cell_collapse collapse s3 = Inr s4" and c5: "cell_per_capita rnd s4 = Inr s5"
    and c6: "cell_latest s5 = Inr s6" and c7: "\<exists>s7. cell_this_week rnd s6 = Inr s7"
    by (auto simp: run_notebook_def split: sum.splits)
  from c2 obtain cv where cv: "set_index csv = Inr cv"
    and s2: "s2 = empty_state\<lparr>heap := (heap empty_state)(0 \<mapsto> Long cv), next_ref := 1,
               cases_vertical_ref := Some 0\<rparr>"
    by (auto simp: cell_read_def alloc_def empty_state_def split: sum.splits)
  from c3 s2 obtain cv' where cv': "cast_outliers cv = Inr cv'"
    and s3: "s3 = s2\<lparr>heap := (heap s2)(0 \<mapsto> Long cv')\<rparr>"
    by (auto simp: cell_cast_def get_long_def empty_state_def split: sum.splits)
  from c4 s3 s2 obtain w ds where w: "collapse cv' measurement_cols = Inr (w, ds)"
    and s4: "s4 = s3\<lparr>heap := (heap s3)(1 \<mapsto> Wide w), next_ref := 2, cases_ref := Some 1,
               dates_var := Some ds\<rparr>"
    by (auto simp: cell_collapse_def get_long_def alloc_def empty_state_def split: sum.splits)
  from c5 s4 s3 s2 obtain w' where w': "add_per_capita rnd w = Inr w'"
    and s5: "s5 = s4\<lparr>heap := (heap s4)(1 \<mapsto> Wide w')\<rparr>"
    by (auto simp: cell_per_capita_def get_wide_def empty_state_def split: sum.splits)
  from c6 s5 s4 s3 s2 obtain l where l: "latest_cases w' = Inr l"
    and s6: "s6 = s5\<lparr>heap := (heap s5)(2 \<mapsto> Wide l), next_ref := 3, latest_cases_ref := Some 2\<rparr>"
    by (auto simp: cell_latest_def get_wide_def alloc_def empty_state_def split: sum.splits)
  from c7 s6 s5 s4 s3 s2 obtain t where t: "cases_this_week rnd w' = Inr t"
    by (auto simp: cell_this_week_def get_wide_def alloc_def empty_state_def split: sum.splits)
  from cv cv' w w' l t that show ?thesis by blast
qed

lemma cast_step_frame:
  assumes "cast_step df col = Inr df'"
  shows "index df' = index df \<and> (\<forall>c. c \<noteq> col \<longrightarrow> map_of (columns df') c = map_of (columns df) c)"
  using assms
  by (auto simp: cast_step_def setitem_def update_conv' split: sum.splits if_splits)

lemma for_cols_cast_frame:
  assumes "for_cols cast_step df cols = Inr df'"
  shows "index df' = index df \<and> (\<forall>c. c \<notin> set cols \<longrightarrow> map_of (columns df') c = map_of (columns df) c)"
  using assms
proof (induction cols arbitrary: df)
  case Nil
  then show ?case by simp
next
  case (Cons col cols)
  from Cons.prems obtain df1 where 1: "cast_step df col = Inr df1"
    and 2: "for_cols cast_step df1 cols = Inr df'"
    by (auto split: sum.splits)
  from cast_step_frame [OF 1] Cons.IH [OF 2] show ?case by simp
qed

lemma cast_outliers_frame:
  assumes "cast_outliers cv = Inr cv'"
  shows "index cv' = index cv \<and> (\<forall>c. c \<notin> set outlier_cols \<longrightarrow> getitem cv' c = getitem cv c)"
  using for_cols_cast_frame [of cv outlier_cols cv'] assms
  by (simp add: cast_outliers_def getitem_def)

lemma add_per_capita_frame:
  assumes "add_per_capita rnd w = Inr w'"
  shows "index w' = index w \<and>
     (\<forall>c. c \<notin> {''Confirmed_per_100'', ''Deaths_per_100''} \<longrightarrow> getitem w' c = getitem w c)"
  using assms
  by (auto simp: add_per_capita_def setitem_def getitem_def update_conv' split: sum.splits if_splits)

text \<open>
  Claim C9 (amended). Over a run of the notebook the variables \<^verbatim>\<open>cases_vertical\<close> and
  \<^verbatim>\<open>cases\<close> keep referring to the same two objects. The long table is written once,
  by the cast of cell 3, which leaves its index and every column other than the three
  outlier columns as they were; from then on it is unchanged. The wide table is written
  once, by cell 5, which leaves its index and every column other than the two per-capita
  columns as they were; deriving the latest and the this-week snapshot leaves it
  unchanged.
\<close>

theorem notebook_frame_conditions:
  assumes "run_notebook rnd collapse csv = Inr (s2, s3, s4, s5, s6, s7)"
  shows "\<exists>a b cv cv' w w'.
     (\<forall>s\<in>{s2, s3, s4, s5, s6, s7}. cases_vertical_ref s = Some a) \<and>
     (\<forall>s\<in>{s4, s5, s6, s7}. cases_ref s = Some b) \<and>
     long_of s2 (Some a) = Some cv \<and>
     (\<forall>s\<in>{s3, s4, s5, s6, s7}. long_of s (Some a) = Some cv') \<and>
     index cv' = index cv \<and>
     (\<forall>c. c \<notin> set outlier_cols \<longrightarrow> getitem cv' c = getitem cv c) \<and>
     wide_of s4 (Some b) = Some w \<and>
     (\<forall>s\<in>{s5, s6, s7}. wide_of s (Some b) = Some w') \<and>
     index w' = index w \<and>
     (\<forall>c. c \<notin> {''Confirmed_per_100'', ''Deaths_per_100''} \<longrightarrow> getitem w' c = getitem w c)"
proof -
  from assms obtain cv cv' w ds w' l t where run:
    "set_index csv = Inr cv" "cast_outliers cv = Inr cv'"
    "collapse cv' measurement_cols = Inr (w, ds)" "add_per_capita rnd w = Inr w'"
    "latest_cases w' = Inr l" "cases_this_week rnd w' = Inr t"
    by (rule run_notebookE)
  from run_notebookI [where collapse = collapse, OF run] assms
  have st: "\<forall>s\<in>{s2, s3, s4, s5, s6, s7}. cases_vertical_ref s = Some 0"
     "\<forall>s\<in>{s4, s5, s6, s7}. cases_ref s = Some 1"
     "long_of s2 (Some 0) = Some cv"
     "\<forall>s\<in>{s3, s4, s5, s6, s7}. long_of s (Some 0) = Some cv'"
     "wide_of s4 (Some 1) = Some w"
     "\<forall>s\<in>{s5, s6, s7}. wide_of s (Some 1) = Some w'"
    by auto
  note fl = cast_outliers_frame [OF run(2)] and fw = add_per_capita_frame [OF run(4)]
  show ?thesis
  proof (intro exI conjI)
    show "\<forall>s\<in>{s2, s3, s4, s5, s6, s7}. cases_vertical_ref s = Some 0" by (rule st(1))
    show "\<forall>s\<in>{s4, s5, s6, s7}. cases_ref s = Some 1" by (rule st(2))
    show "long_of s2 (Some 0) = Some cv" by (rule st(3))
    show "\<forall>s\<in>{s3, s4, s5, s6, s7}. long_of s (Some 0) = Some cv'" by (rule st(4))
    show "index cv' = index cv" using fl by (rule conjunct1)
    show "\<forall>c. c \<notin> set outlier_cols \<longrightarrow> getitem cv' c = getitem cv c"
      using fl by (rule conjunct2)
    show "wide_of s4 (Some 1) = Some w" by (rule st(5))
    show "\<forall>s\<in>{s5, s6, s7}. wide_of s (Some 1) = Some w'" by (rule st(6))
    show "index w' = index w" using fw by (rule conjunct1)
    show "\<forall>c. c \<notin> {''Confirmed_per_100'', ''Deaths_per_100''} \<longrightarrow> getitem w' c = getitem w c"
      using fw by (rule conjunct2)
  qed
qed

lemma autauga_metrics:
  "\<exists>w' l t. add_per_capita rnd autauga_wide = Inr w' \<and> latest_cases w' = Inr l \<and>
     cases_this_week rnd w' = Inr t \<and>
     getitem l ''Confirmed_per_100'' = Inr (Scalars [Num (per_100_of rnd (Fin 40) (Fin 1000))]) \<and>
     getitem t ''Confirmed'' = Inr (Scalars [Num (fsub rnd (Fin 40) (Fin 15))])"
proof -
  let ?c = "float_tensor 10 [map (\<lambda>x. per_100_of rnd x (Fin 1000)) autauga_confirmed]"
  let ?d = "float_tensor 10 [map (\<lambda>x. per_100_of rnd x (Fin 1000)) autauga_deaths]"
  let ?w = "autauga_wide\<lparr>columns := columns autauga_wide @
              [(''Confirmed_per_100'', ?c), (''Deaths_per_100'', ?d)]\<rparr>"
  have g: "getitem autauga_wide ''Confirmed'' = Inr (float_tensor 10 [autauga_confirmed])"
    "getitem autauga_wide ''Deaths'' = Inr (float_tensor 10 [autauga_deaths])"
    "getitem autauga_wide ''Population'' = Inr (float_col [Fin 1000])"
    by (simp_all add: getitem_def autauga_wide_def)
  have run: "add_per_capita rnd autauga_wide = Inr ?w"
    using add_per_capita_float [OF g, of rnd]
    by (simp add: autauga_wide_def)
  have len: "length autauga_confirmed = 10" "length autauga_deaths = 10"
    by (simp_all add: autauga_confirmed_def autauga_deaths_def)
  have w: "wide_table ?w 10"
    using len
    by (simp add: wide_table_def snapshot_base_def snapshot_cols_def is_scalar_col_def
        is_tensor_col_def autauga_wide_def float_tensor_def float_col_def)
  have f: "float_tensors ?w"
    by (simp add: float_tensors_def snapshot_cols_def is_float_tensor_def autauga_wide_def
        float_tensor_def list_all_iff)
  have gp: "getitem ?w ''Confirmed_per_100'' = Inr ?c"
    and gc: "getitem ?w ''Confirmed'' = Inr (float_tensor 10 [autauga_confirmed])"
    by (simp_all add: getitem_def autauga_wide_def)
  from latest_cases_wide [OF w] obtain l where l: "latest_cases ?w = Inr l"
    "\<forall>c\<in>set snapshot_cols. \<exists>rows.
        getitem ?w c = Inr (Tensor 10 rows) \<and> length rows = length (index ?w) \<and>
        getitem l c = Inr (Scalars (map (\<lambda>row. row ! (10 - 1)) rows))"
    by auto
  from l(2) gp have lv: "getitem l ''Confirmed_per_100''
      = Inr (Scalars [Num (per_100_of rnd (Fin 40) (Fin 1000))])"
    by (auto simp: snapshot_cols_def float_tensor_def autauga_confirmed_def)
  from cases_this_week_wide [OF w f, of rnd] obtain t where t: "cases_this_week rnd ?w = Inr t"
    "\<forall>c\<in>set snapshot_cols. \<exists>rows vs.
        getitem ?w c = Inr (Tensor 10 rows) \<and> getitem t c = Inr (Scalars vs) \<and>
        length vs = length (index ?w) \<and> length rows = length (index ?w) \<and>
        (\<forall>r<length rows. np_sub rnd (rows ! r ! (10 - 1)) (rows ! r ! (10 - 8)) = Inr (vs ! r))"
    by auto
  from t(2) obtain rows vs where rv: "getitem ?w ''Confirmed'' = Inr (Tensor 10 rows)"
    "getitem t ''Confirmed'' = Inr (Scalars vs)" "length vs = length (index ?w)"
    "\<forall>r<length rows. np_sub rnd (rows ! r ! (10 - 1)) (rows ! r ! (10 - 8)) = Inr (vs ! r)"
    by (auto simp: snapshot_cols_def)
  from rv(1) gc have rows: "rows = [map Num autauga_confirmed]"
    by (simp add: float_tensor_def)
  from rv(3) have "length vs = 1" by (simp add: autauga_wide_def)
  moreover from rv(4) rows have "vs ! 0 = Num (fsub rnd (Fin 40) (Fin 15))"
    by (simp add: autauga_confirmed_def)
  ultimately have "vs = [Num (fsub rnd (Fin 40) (Fin 15))]"
    by (cases vs) simp_all
  with rv(2) run l(1) t(1) lv show ?thesis by blast
qed

text \<open>
  Claim C8. For county 01001 on the ten days 2021-01-01 to 2021-01-10 with the confirmed
  counts 10, 12, 15, 15, 20, 22, 25, 30, 33, 40 and the constant population 1000, the
  notebook runs through, the latest \<^verbatim>\<open>Confirmed_per_100\<close> is 4.0 and the this-week delta
  of \<^verbatim>\<open>Confirmed\<close> is 25 (position 9 minus position 2). The rounding is only asked to
  be exact on the three numbers 4000, 4 and 25, which float64 represents.
\<close>

theorem autauga_end_to_end:
  assumes "\<forall>x\<in>{4000, 4, 25}. rnd x = Fin x"
  shows "\<exists>s2 s3 s4 s5 s6 s7 latest week.
     run_notebook rnd collapse_time_series autauga_csv = Inr (s2, s3, s4, s5, s6, s7) \<and>
     wide_of s7 (latest_cases_ref s7) = Some latest \<and>
     wide_of s7 (cases_this_week_ref s7) = Some week \<and>
     getitem latest ''Confirmed_per_100'' = Inr (Scalars [Num (Fin 4)]) \<and>
     getitem week ''Confirmed'' = Inr (Scalars [Num (Fin 25)])"
proof -
  from autauga_metrics [of rnd] obtain w' l t where m:
    "add_per_capita rnd autauga_wide = Inr w'" "latest_cases w' = Inr l"
    "cases_this_week rnd w' = Inr t"
    "getitem l ''Confirmed_per_100'' = Inr (Scalars [Num (per_100_of rnd (Fin 40) (Fin 1000))])"
    "getitem t ''Confirmed'' = Inr (Scalars [Num (fsub rnd (Fin 40) (Fin 15))])"
    by blast
  from assms have r: "rnd 4000 = Fin 4000" "rnd 4 = Fin 4" "rnd 25 = Fin 25" by simp_all
  have v: "per_100_of rnd (Fin 40) (Fin 1000) = Fin 4" "fsub rnd (Fin 40) (Fin 15) = Fin 25"
    using r by (simp_all add: per_100_of_def)
  from run_notebookI [where collapse = collapse_time_series, OF set_index_autauga cast_outliers_autauga collapse_autauga m(1,2,3)]
  obtain s2 s3 s4 s5 s6 s7 where "run_notebook rnd collapse_time_series autauga_csv = Inr (s2, s3, s4, s5, s6, s7)"
    "wide_of s7 (latest_cases_ref s7) = Some l" "wide_of s7 (cases_this_week_ref s7) = Some t"
    by blast
  with m(4,5) v show ?thesis by auto
qed

text \<open>Exact arithmetic is such a rounding.\<close>

theorem autauga_end_to_end_witness:
  "Fin 4000 = Fin 4000 \<and> Fin 4 = Fin 4 \<and> Fin 25 = Fin 25 \<and>
   (\<exists>s2 s3 s4 s5 s6 s7 latest week.
     run_notebook Fin collapse_time_series autauga_csv = Inr (s2, s3, s4, s5, s6, s7) \<and>
     wide_of s7 (latest_cases_ref s7) = Some latest \<and>
     wide_of s7 (cases_this_week_ref s7) = Some week \<and>
     getitem latest ''Confirmed_per_100'' = Inr (Scalars [Num (Fin 4)]) \<and>
     getitem week ''Confirmed'' = Inr (Scalars [Num (Fin 25)]))"
proof -
  have h: "\<forall>x\<in>{4000, 4, 25}. Fin x = Fin x" by simp
  show ?thesis using h autauga_end_to_end [of Fin, OF h] by simp
qed

text \<open>
  Claim C7. When a pair of location and date occurs twice in the source, building the
  index of the long table in cell 2 raises pandas' \<^verbatim>\<open>ValueError\<close> for duplicate keys (the
  specification's \<^verbatim>\<open>DuplicateKeyError\<close>), and the run ends there: no table is
  collapsed, no duplicate is dropped or averaged.
\<close>

theorem duplicate_keys_rejected:
  assumes "\<not> distinct (zip (FIPS csv) (Date csv))"
  shows "set_index csv = Inl ValueError \<and> run_notebook rnd collapse csv = Inl ValueError"
  using assms by (simp add: run_notebook_def cell_read_def set_index_def)

text \<open>The duplicated source is refused.\<close>

theorem duplicate_keys_rejected_witness:
  "\<not> distinct (zip (FIPS duplicated_csv) (Date duplicated_csv)) \<and>
   set_index duplicated_csv = Inl ValueError \<and> run_notebook Fin collapse_time_series duplicated_csv = Inl ValueError"
proof -
  have h: "\<not> distinct (zip (FIPS duplicated_csv) (Date duplicated_csv))"
    by (simp add: duplicated_csv_def)
  show ?thesis using h duplicate_keys_rejected [OF h, of Fin collapse_time_series] by simp
qed

section \<open>Properties of the rendering\<close>

lemma mask_rows_filter: "mask_rows (map p xs) xs = filter p xs"
  by (induction xs) (simp_all add: mask_rows_def)

lemma mask_rows_zip:
  "length ys = length xs \<Longrightarrow>
   mask_rows (map p xs) ys = map fst (filter (\<lambda>(y, x). p x) (zip ys xs))"
  by (induction ys xs rule: list_induct2) (simp_all add: mask_rows_def)

lemma map_of_mask_columns:
  "map_of (map (\<lambda>(name, c). (name, mask_column keep c)) cols) c
     = map_option (mask_column keep) (map_of cols c)"
  by (induction cols) auto

lemma getitem_getitem_mask:
  "getitem (getitem_mask df keep) c =
     (case getitem df c of Inl e \<Rightarrow> Inl e | Inr v \<Rightarrow> Inr (mask_column keep v))"
  by (simp add: getitem_def getitem_mask_def map_of_mask_columns split: option.splits)

text \<open>
  Claim C10. When the selected column is a scalar column, the frame has a \<^verbatim>\<open>County\<close>
  column and the quantile routine returns, \<^verbatim>\<open>draw_map\<close> renders exactly the rows whose
  value in the selected column is not not-a-number, every column cut down to those rows,
  and the colour scale runs from 0 to the 0.95 quantile of the selected column over
  those rows.
\<close>

theorem draw_map_valid_rows:
  assumes "getitem df col_name = Inr (Scalars vs)" and "length vs = length (index df)"
    and "getitem df ''County'' = Inr county"
    and "quantile (filter (\<lambda>v. \<not> isna v) vs) (95 / 100) = Inr upper"
  shows "\<exists>fig. draw_map quantile df col_name label_str = Inr fig \<and>
     index (data fig) = map fst (filter (\<lambda>(f, v). \<not> isna v) (zip (index df) vs)) \<and>
     (\<forall>c col. getitem df c = Inr col \<longrightarrow>
        getitem (data fig) c = Inr (mask_column (map (\<lambda>v. \<not> isna v) vs) col)) \<and>
     getitem (data fig) col_name = Inr (Scalars (filter (\<lambda>v. \<not> isna v) vs)) \<and>
     range_color fig = (Num (Fin 0), upper)"
proof -
  let ?keep = "map (\<lambda>v. \<not> isna v) vs"
  let ?valid = "getitem_mask df ?keep"
  have v: "getitem ?valid col_name = Inr (Scalars (filter (\<lambda>v. \<not> isna v) vs))"
    using assms(1) by (simp add: getitem_getitem_mask mask_rows_filter)
  have c: "getitem ?valid ''County'' = Inr (mask_column ?keep county)"
    using assms(3) by (simp add: getitem_getitem_mask)
  have i: "index ?valid = map fst (filter (\<lambda>(f, v). \<not> isna v) (zip (index df) vs))"
    using assms(2) by (simp add: getitem_mask_def mask_rows_zip)
  have run: "draw_map quantile df col_name label_str =
      Inr \<lparr>data = ?valid, locations = map format_05d (index ?valid), color = col_name,
           range_color = (Num (Fin 0), upper), labels = (col_name, label_str),
           hover_name = mask_column ?keep county, title = label_str\<rparr>"
    using assms(1,4) v c by (simp add: draw_map_def Let_def)
  show ?thesis
    unfolding run using i v by (simp add: getitem_getitem_mask)
qed

text \<open>The row of the gap is left out, the row of the infinity is kept.\<close>

theorem draw_map_valid_rows_witness:
  "getitem latest_snapshot ''Confirmed_per_100'' = Inr (Scalars [Num (Fin 4), Num NaN, Num PInf]) \<and>
   length [Num (Fin 4), Num NaN, Num PInf] = length (index latest_snapshot) \<and>
   getitem latest_snapshot ''County'' = Inr (Scalars [Str ''Autauga'', Str ''Baldwin'', Str ''Barbour'']) \<and>
   largest (filter (\<lambda>v. \<not> isna v) [Num (Fin 4), Num NaN, Num PInf]) (95 / 100) = Inr (Num PInf) \<and>
   (\<exists>fig. draw_map largest latest_snapshot ''Confirmed_per_100'' ''Confirmed per 100'' = Inr fig \<and>
      index (data fig) = [1001, 1005] \<and>
      getitem (data fig) ''Confirmed_per_100'' = Inr (Scalars [Num (Fin 4), Num PInf]) \<and>
      range_color fig = (Num (Fin 0), Num PInf))"
proof -
  have h: "getitem latest_snapshot ''Confirmed_per_100'' = Inr (Scalars [Num (Fin 4), Num NaN, Num PInf])"
    "length [Num (Fin 4), Num NaN, Num PInf] = length (index latest_snapshot)"
    "getitem latest_snapshot ''County'' = Inr (Scalars [Str ''Autauga'', Str ''Baldwin'', Str ''Barbour''])"
    "largest (filter (\<lambda>v. \<not> isna v) [Num (Fin 4), Num NaN, Num PInf]) (95 / 100) = Inr (Num PInf)"
    by (simp_all add: latest_snapshot_def getitem_def float_col_def)
  from draw_map_valid_rows [where quantile = largest and label_str = "''Confirmed per 100''", OF h]
  obtain fig where fig:
    "draw_map largest latest_snapshot ''Confirmed_per_100'' ''Confirmed per 100'' = Inr fig"
    "index (data fig) =
       map fst (filter (\<lambda>(f, v). \<not> isna v) (zip (index latest_snapshot) [Num (Fin 4), Num NaN, Num PInf]))"
    "getitem (data fig) ''Confirmed_per_100'' =
       Inr (Scalars (filter (\<lambda>v. \<not> isna v) [Num (Fin 4), Num NaN, Num PInf]))"
    "range_color fig = (Num (Fin 0), Num PInf)"
    by blast
  from fig(2) have "index (data fig) = [1001, 1005]" by (simp add: latest_snapshot_def)
  moreover from fig(3) have "getitem (data fig) ''Confirmed_per_100'' = Inr (Scalars [Num (Fin 4), Num PInf])"
    by simp
  ultimately show ?thesis using h fig(1,4) by blast
qed

section \<open>Concrete runs\<close>

text \<open>The round trip on the table with gaps.\<close>

theorem collapse_expand_round_trip_witness:
  "long_table gappy_long [''Confirmed'', ''Confirmed_Outlier''] \<and>
   (\<exists>wide dates original.
      collapse_time_series gappy_long [''Confirmed'', ''Confirmed_Outlier''] = Inr (wide, dates) \<and>
      getitem_list gappy_long [''Confirmed'', ''Confirmed_Outlier''] = Inr original \<and>
      expand_time_series wide dates (index gappy_long) [''Confirmed'', ''Confirmed_Outlier'']
        = Inr original \<and>
      getitem original ''Confirmed'' = Inr (Scalars [Num (Fin 1), Num (Fin 2), Num (Fin 3)]))"
proof -
  have h: "long_table gappy_long [''Confirmed'', ''Confirmed_Outlier'']"
    by (rule long_table_gappy)
  from collapse_expand_round_trip [OF h]
  obtain wide dates original where r:
    "collapse_time_series gappy_long [''Confirmed'', ''Confirmed_Outlier''] = Inr (wide, dates)"
    "getitem_list gappy_long [''Confirmed'', ''Confirmed_Outlier''] = Inr original"
    "expand_time_series wide dates (index gappy_long) [''Confirmed'', ''Confirmed_Outlier'']
       = Inr original"
    by blast
  from r(2) have "getitem original ''Confirmed'' = Inr (Scalars [Num (Fin 1), Num (Fin 2), Num (Fin 3)])"
    by (auto simp: getitem_list_def getitem_def gappy_long_def)
  with h r show ?thesis by blast
qed

text \<open>The collapsed form of the table with gaps.\<close>

theorem collapse_well_formed_witness:
  "long_table gappy_long [''Confirmed'', ''Confirmed_Outlier''] \<and>
   (\<exists>wide dates.
      collapse_time_series gappy_long [''Confirmed'', ''Confirmed_Outlier''] = Inr (wide, dates) \<and>
      dates = [(2021, 1, 1), (2021, 1, 2), (2021, 1, 3)] \<and>
      sorted dates \<and> distinct dates \<and> length dates = card (snd ` set (index gappy_long)) \<and>
      getitem wide ''Confirmed''
        = Inr (Tensor 3 [[Num (Fin 2), gap, gap], [gap, Num (Fin 1), Num (Fin 3)]]))"
proof -
  have h: "long_table gappy_long [''Confirmed'', ''Confirmed_Outlier'']"
    by (rule long_table_gappy)
  from collapse_well_formed [OF h]
  obtain wide dates where r:
    "collapse_time_series gappy_long [''Confirmed'', ''Confirmed_Outlier''] = Inr (wide, dates)"
    "sorted dates" "distinct dates" "length dates = card (snd ` set (index gappy_long))"
    by blast
  from r(1) have "dates = [(2021, 1, 1), (2021, 1, 2), (2021, 1, 3)]"
    "getitem wide ''Confirmed''
        = Inr (Tensor 3 [[Num (Fin 2), gap, gap], [gap, Num (Fin 1), Num (Fin 3)]])"
    by (auto simp: collapse_gappy getitem_def)
  with h r show ?thesis by blast
qed

text \<open>The run on the end-to-end example.\<close>

theorem notebook_frame_conditions_witness:
  "\<exists>s2 s3 s4 s5 s6 s7.
     run_notebook Fin collapse_time_series autauga_csv = Inr (s2, s3, s4, s5, s6, s7) \<and>
     long_of s2 (Some 0) = Some (autauga_long (Flag False)) \<and>
     long_of s7 (Some 0) = Some (autauga_long (I8 0)) \<and>
     (\<exists>a b cv cv' w w'.
        (\<forall>s\<in>{s2, s3, s4, s5, s6, s7}. cases_vertical_ref s = Some a) \<and>
        (\<forall>s\<in>{s4, s5, s6, s7}. cases_ref s = Some b) \<and>
        long_of s2 (Some a) = Some cv \<and>
        (\<forall>s\<in>{s3, s4, s5, s6, s7}. long_of s (Some a) = Some cv') \<and>
        index cv' = index cv \<and>
        (\<forall>c. c \<notin> set outlier_cols \<longrightarrow> getitem cv' c = getitem cv c) \<and>
        wide_of s4 (Some b) = Some w \<and>
        (\<forall>s\<in>{s5, s6, s7}. wide_of s (Some b) = Some w') \<and>
        index w' = index w \<and>
        (\<forall>c. c \<notin> {''Confirmed_per_100'', ''Deaths_per_100''} \<longrightarrow> getitem w' c = getitem w c))"
proof -
  from autauga_metrics [of Fin] obtain w' l t where m:
    "add_per_capita Fin autauga_wide = Inr w'" "latest_cases w' = Inr l"
    "cases_this_week Fin w' = Inr t"
    by blast
  from run_notebookI [where collapse = collapse_time_series, OF set_index_autauga cast_outliers_autauga collapse_autauga m]
  obtain s2 s3 s4 s5 s6 s7 where run:
    "run_notebook Fin collapse_time_series autauga_csv = Inr (s2, s3, s4, s5, s6, s7)"
    "long_of s2 (Some 0) = Some (autauga_long (Flag False))"
    "long_of s7 (Some 0) = Some (autauga_long (I8 0))"
    by auto
  note c = notebook_frame_conditions [OF run(1)]
  show ?thesis
    apply (rule exI [of _ s2], rule exI [of _ s3], rule exI [of _ s4])
    apply (rule exI [of _ s5], rule exI [of _ s6], rule exI [of _ s7])
    apply (intro conjI)
       apply (rule run(1))
      apply (rule run(2))
     apply (rule run(3))
    apply (rule c)
    done
qed

text \<open>
  Claim C9 as stated fails: cell 3 writes to the long table. In the example the object of
  \<^verbatim>\<open>cases_vertical\<close> holds boolean outlier flags after cell 2 and \<^verbatim>\<open>int8\<close> zeros after
  cell 3.
\<close>

theorem cast_mutates_long_table_counterexample:
  "cell_read autauga_csv empty_state = Inr autauga_s2 \<and>
   heap autauga_s2 0 = Some (Long (autauga_long (Flag False))) \<and>
   cell_cast autauga_s2 = Inr (autauga_s2\<lparr>heap := (heap autauga_s2)(0 \<mapsto> Long (autauga_long (I8 0)))\<rparr>) \<and>
   getitem (autauga_long (Flag False)) ''Confirmed_Outlier'' = Inr (Scalars (replicate 10 (Flag False))) \<and>
   getitem (autauga_long (I8 0)) ''Confirmed_Outlier'' = Inr (Scalars (replicate 10 (I8 0)))"
proof -
  have 1: "cell_read autauga_csv empty_state = Inr autauga_s2"
    by (simp add: cell_read_def set_index_autauga alloc_def autauga_s2_def empty_state_def)
  have 2: "heap autauga_s2 0 = Some (Long (autauga_long (Flag False)))"
    by (simp add: autauga_s2_def)
  have 3: "cell_cast autauga_s2
      = Inr (autauga_s2\<lparr>heap := (heap autauga_s2)(0 \<mapsto> Long (autauga_long (I8 0)))\<rparr>)"
    by (simp add: cell_cast_def get_long_def autauga_s2_def empty_state_def cast_outliers_autauga)
  have 4: "getitem (autauga_long (Flag False)) ''Confirmed_Outlier'' = Inr (Scalars (replicate 10 (Flag False)))"
    "getitem (autauga_long (I8 0)) ''Confirmed_Outlier'' = Inr (Scalars (replicate 10 (I8 0)))"
    by (simp_all add: getitem_def autauga_long_def autauga_columns_def)
  show ?thesis by (intro conjI 1 2 3 4)
qed

end
